theory Spec2Isabelle
  imports Complex_Main "HOL-Library.Sublist" "HOL-Library.Log_Nat"
begin

section \<open>Python strings\<close>

text \<open>
  A Python \<open>str\<close> is a sequence of code points. It is modelled as a \<open>string\<close>, one
  \<open>char\<close> per code point, which covers the code points 0 to 255 (ASCII and Latin-1). On
  this range \<open>str.lower\<close> maps every character to one character: the letters A to Z and
  the upper-case Latin-1 letters (192 to 222, without the multiplication sign 215) move up
  by 32, everything else stays.
\<close>

definition py_lower_char :: "char \<Rightarrow> char" where
  "py_lower_char c =
     (let n = (of_char c :: nat)
      in if (65 \<le> n \<and> n \<le> 90) \<or> (192 \<le> n \<and> n \<le> 222 \<and> n \<noteq> 215)
         then char_of (n + 32) else c)"

definition py_lower :: "string \<Rightarrow> string" where
  "py_lower s = map py_lower_char s"

text \<open>\<open>needle in haystack\<close> on strings: the needle occurs as a contiguous slice.\<close>

fun starts_with :: "string \<Rightarrow> string \<Rightarrow> bool" where
  "starts_with [] cs = True"
| "starts_with (p # ps) [] = False"
| "starts_with (p # ps) (c # cs) = (p = c \<and> starts_with ps cs)"

fun str_contains :: "string \<Rightarrow> string \<Rightarrow> bool" where
  "str_contains needle [] = (needle = [])"
| "str_contains needle (c # cs) = (starts_with needle (c # cs) \<or> str_contains needle cs)"

section \<open>Block detector (\<open>SoftBlockHandler.is_soft_blocked\<close>)\<close>

definition SOFT_BLOCK_HINTS :: "string list" where
  "SOFT_BLOCK_HINTS =
     [''unusual traffic'',
      ''verify that you are a human'',
      ''detected unusual activity'',
      ''please try again later'',
      ''are you a robot'',
      ''unusual behavior from your computer'']"

text \<open>The \<open>for hint in ...: if hint in lower: return True\<close> loop, then \<open>return False\<close>.\<close>

fun hint_loop :: "string list \<Rightarrow> string \<Rightarrow> bool" where
  "hint_loop [] lower = False"
| "hint_loop (hint # hints) lower =
     (if str_contains hint lower then True else hint_loop hints lower)"

definition is_soft_blocked :: "string \<Rightarrow> bool" where
  "is_soft_blocked html = (let lower = py_lower html in hint_loop SOFT_BLOCK_HINTS lower)"

section \<open>Python floats\<close>

text \<open>
  A Python \<open>float\<close> is an IEEE 754 double. Its value is a real number, and an operation
  on floats gives the exact result rounded to the nearest double, a tie going to the
  double whose last bit is even: \<open>x + y\<close> on floats is \<open>float_round (x + y)\<close> on their
  values.

  \<open>half_even\<close> rounds a real to the nearest integer, \<open>binade x\<close> is the \<open>e\<close> with
  \<open>2^e \<le> x < 2^(e+1)\<close> for a positive \<open>x\<close>, and a double in that range is a multiple of
  \<open>2^(e-52)\<close>; below \<open>2^-1022\<close> the doubles are the multiples of \<open>2^-1074\<close> (the
  subnormal numbers and zero).

  The largest double is \<open>2^1024 - 2^971\<close>. \<open>float_round\<close> has no upper limit of its own: a
  rounded value of \<open>2^1024\<close> or more stands for a result that is no finite double. The
  one operation of the program that raises there is the power \<open>**\<close>, which is \<open>float_pow\<close>:
  it raises \<open>OverflowError\<close>. \<open>**\<close> is taken to be rounded like the other operations.
\<close>

definition half_even :: "real \<Rightarrow> int" where
  "half_even q =
     (let n = \<lfloor>q\<rfloor>; f = q - of_int n
      in if f < 1 / 2 then n else if 1 / 2 < f then n + 1 else if even n then n else n + 1)"

definition binade :: "real \<Rightarrow> int" where
  "binade x =
     (if 1 \<le> x then int (floorlog 2 (nat \<lfloor>x\<rfloor>)) - 1
      else - int (floorlog 2 (nat (\<lceil>1 / x\<rceil> - 1))))"

definition float_round :: "real \<Rightarrow> real" where
  "float_round x =
     (if x = 0 then 0
      else (let e = max (binade \<bar>x\<bar>) (- 1022); u = 2 powi (e - 52)
            in sgn x * of_int (half_even (\<bar>x\<bar> / u)) * u))"

section \<open>Exceptions, the network and the random generator\<close>

text \<open>
  Exceptions are values. \<open>Timeout\<close> and \<open>ConnectionError\<close> are the two classes of the
  \<open>requests\<close> library that the source catches; \<open>RequestException\<close> stands for any other
  exception a request raises, which the source lets through. \<open>ValueError\<close> and
  \<open>OverflowError\<close> are raised by built-in operations.
\<close>

datatype exn =
    Timeout
  | ConnectionError
  | RequestException
  | RuntimeError string
  | ValueError
  | OverflowError

text \<open>What one call of \<open>session.get\<close> does: it returns a response (its text and whether
  the status is below 400, \<open>resp.ok\<close>) or raises.\<close>

datatype reply = Response string bool | Raises exn

text \<open>
  The effects of the program, in the order they happen: sleeps, outbound requests (target,
  the \<open>headers\<close> argument, the timeout) and the values handed out by the \<open>random\<close> module.
  Logging is left out.
\<close>

datatype event =
    Sleep real
  | Get string "(string \<times> string) list" int
  | Choice string
  | Uniform real
  | Randint int

text \<open>
  The world outside the program. \<open>net w k\<close> is what the \<open>k\<close>-th request of the run meets
  and \<open>rnd w k\<close> is the raw outcome of the \<open>k\<close>-th call into the random generator; both are
  arbitrary, so a statement about every world is a statement about every server behaviour
  and every seed. \<open>sent\<close> and \<open>drawn\<close> count the requests and draws made so far.

  Durations and random floats are the values of Python floats.
\<close>

record world =
  net :: "nat \<Rightarrow> reply"
  rnd :: "nat \<Rightarrow> nat"
  sent :: nat
  drawn :: nat
  trace :: "event list"

definition session_get ::
  "string \<Rightarrow> (string \<times> string) list \<Rightarrow> int \<Rightarrow> world \<Rightarrow> reply \<times> world" where
  "session_get url headers timeout w =
     (net w (sent w),
      w\<lparr>sent := sent w + 1, trace := trace w @ [Get url headers timeout]\<rparr>)"

text \<open>
  \<open>time.sleep(secs)\<close> on a float. CPython first converts the duration to a signed 64-bit
  count of nanoseconds: the float product \<open>secs * 1e9\<close> has to lie in \<open>[-2^63, 2^63)\<close>,
  otherwise the call raises \<open>OverflowError\<close> (a double of that size is a whole number, so
  the rounding to a whole nanosecond plays no part in the test). A negative duration that
  passes raises \<open>ValueError\<close>. What is left is handed to the operating system, which is
  taken to sleep; a system can refuse a deadline at the far end of its own clock, and that
  is not modelled.
\<close>

definition time_sleep :: "real \<Rightarrow> world \<Rightarrow> (exn + unit) \<times> world" where
  "time_sleep secs w =
     (let ns = float_round (secs * 10 ^ 9)
      in if ns < - (2 ^ 63) \<or> 2 ^ 63 \<le> ns then (Inl OverflowError, w)
         else if secs < 0 then (Inl ValueError, w)
         else (Inr (), w\<lparr>trace := trace w @ [Sleep secs]\<rparr>))"

text \<open>\<open>random.random()\<close> is a multiple of \<open>2^-53\<close> in \<open>[0, 1)\<close>.\<close>

definition unit_draw :: "nat \<Rightarrow> real" where
  "unit_draw raw = real (raw mod 2 ^ 53) / 2 ^ 53"

text \<open>\<open>random.uniform(a, b)\<close> is \<open>a + (b - a) * random()\<close>, on floats.\<close>

definition random_uniform :: "real \<Rightarrow> real \<Rightarrow> world \<Rightarrow> real \<times> world" where
  "random_uniform a b w =
     (let x = float_round (a + float_round (float_round (b - a) * unit_draw (rnd w (drawn w))))
      in (x, w\<lparr>drawn := drawn w + 1, trace := trace w @ [Uniform x]\<rparr>))"

text \<open>\<open>random.choice(seq)\<close>, called on a non-empty list only (the user-agent pool).\<close>

definition random_choice :: "string list \<Rightarrow> world \<Rightarrow> string \<times> world" where
  "random_choice seq w =
     (let x = seq ! (rnd w (drawn w) mod length seq)
      in (x, w\<lparr>drawn := drawn w + 1, trace := trace w @ [Choice x]\<rparr>))"

text \<open>\<open>random.randint(a, b)\<close>, called with \<open>a \<le> b\<close> only (110 and 125).\<close>

definition random_randint :: "int \<Rightarrow> int \<Rightarrow> world \<Rightarrow> int \<times> world" where
  "random_randint a b w =
     (let x = a + int (rnd w (drawn w) mod nat (b - a + 1))
      in (x, w\<lparr>drawn := drawn w + 1, trace := trace w @ [Randint x]\<rparr>))"

text \<open>
  \<open>x ** n\<close> for a float \<open>x\<close> and an integer \<open>n \<ge> 0\<close>: the rounded power, and
  \<open>OverflowError\<close> when that is no finite double (\<open>1.5 ** 1750\<close> is a float,
  \<open>1.5 ** 1751\<close> raises).
\<close>

definition float_pow :: "real \<Rightarrow> nat \<Rightarrow> exn + real" where
  "float_pow x n =
     (let y = float_round (x ^ n)
      in if 2 ^ 1024 \<le> \<bar>y\<bar> then Inl OverflowError else Inr y)"

section \<open>Decimal numerals (\<open>str\<close> of an \<open>int\<close>)\<close>

definition digit_char :: "nat \<Rightarrow> char" where
  "digit_char d = char_of (48 + d)"

function str_nat :: "nat \<Rightarrow> string" where
  "str_nat n = (if n < 10 then [digit_char n] else str_nat (n div 10) @ [digit_char (n mod 10)])"
  by pat_completeness auto
termination
  by (relation "measure id") auto

definition str_int :: "int \<Rightarrow> string" where
  "str_int i = (if i < 0 then CHR ''-'' # str_nat (nat (- i)) else str_nat (nat i))"

section \<open>Backoff policy and block recovery (\<open>SoftBlockHandler\<close>)\<close>

record softblock_handler =
  max_retries :: int
  backoff_factor :: real

text \<open>
  \<open>compute_backoff\<close>. The factor is a float, as its annotation says. The first line is
  \<open>backoff_base\<close>, the jitter-free part of the delay: \<open>backoff_factor ** (attempt - 1)\<close> for
  a positive attempt, \<open>1.0\<close> otherwise; when the power raises, no jitter has been drawn
  yet.
\<close>

definition backoff_base :: "softblock_handler \<Rightarrow> int \<Rightarrow> exn + real" where
  "backoff_base self attempt =
     (if attempt > 0 then float_pow (backoff_factor self) (nat (attempt - 1)) else Inr 1)"

definition compute_backoff ::
  "softblock_handler \<Rightarrow> int \<Rightarrow> world \<Rightarrow> (exn + real) \<times> world" where
  "compute_backoff self attempt w =
     (case backoff_base self attempt of
        Inl e \<Rightarrow> (Inl e, w)
      | Inr base \<Rightarrow>
          (case random_uniform 0 (1 / 2) w of
             (jitter, w') \<Rightarrow> (Inr (float_round (base + jitter)), w')))"

definition recovery_headers :: "int \<Rightarrow> (string \<times> string) list" where
  "recovery_headers v =
     [(''User-Agent'',
       ''Mozilla/5.0 (Windows NT 10.0; Win64; x64) '' @
       ''AppleWebKit/537.36 (KHTML, like Gecko) '' @
       ''Chrome/'' @ str_int v @ ''.0 Safari/537.36''),
      (''Cache-Control'', ''no-cache'')]"

definition unresolved :: exn where
  "unresolved = RuntimeError ''Soft block could not be resolved after retries.''"

text \<open>
  The \<open>while attempt < self.max_retries\<close> loop of \<open>handle_soft_block\<close>, with its two
  variables \<open>attempt\<close> and \<open>last_html\<close>. A caught network failure is the \<open>continue\<close>; any
  other exception of the request leaves the procedure, and so does an exception of
  \<open>compute_backoff\<close> or \<open>time.sleep\<close>, which are outside the \<open>try\<close>.
\<close>

function retry_loop ::
  "softblock_handler \<Rightarrow> string \<Rightarrow> int \<Rightarrow> string \<Rightarrow> world \<Rightarrow> (exn + string) \<times> world" where
  "retry_loop self url attempt last_html w =
     (if attempt < max_retries self then
        (case compute_backoff self (attempt + 1) w of
           (Inl e, w1) \<Rightarrow> (Inl e, w1)
         | (Inr delay, w1) \<Rightarrow>
            (case time_sleep delay w1 of
               (Inl e, w2) \<Rightarrow> (Inl e, w2)
             | (Inr u, w2) \<Rightarrow>
                (case random_randint 110 125 w2 of (v, w3) \<Rightarrow>
                 (case session_get url (recovery_headers v) 15 w3 of
                    (Raises e, w4) \<Rightarrow>
                      (if e = Timeout \<or> e = ConnectionError
                       then retry_loop self url (attempt + 1) last_html w4
                       else (Inl e, w4))
                  | (Response body ok, w4) \<Rightarrow>
                      (if \<not> is_soft_blocked body then (Inr body, w4)
                       else retry_loop self url (attempt + 1) body w4)))))
      else (Inl unresolved, w))"
  by pat_completeness auto
termination
  by (relation "measure (\<lambda>(self, url, attempt, last_html, w). nat (max_retries self - attempt))")
     auto

text \<open>\<open>original_html or ""\<close>: \<open>None\<close> and the empty string give the empty string.\<close>

definition or_empty :: "string option \<Rightarrow> string" where
  "or_empty original_html = (case original_html of None \<Rightarrow> '''' | Some h \<Rightarrow> h)"

definition handle_soft_block ::
  "softblock_handler \<Rightarrow> string \<Rightarrow> string option \<Rightarrow> world \<Rightarrow> (exn + string) \<times> world" where
  "handle_soft_block self url original_html w =
     (case original_html of
        Some h \<Rightarrow>
          (if \<not> is_soft_blocked h then (Inr h, w)
           else retry_loop self url 0 (or_empty original_html) w)
      | None \<Rightarrow> retry_loop self url 0 (or_empty original_html) w)"

section \<open>Target locator (\<open>BingSearchScraper._build_search_url\<close>)\<close>

text \<open>
  \<open>urllib.parse.urlencode\<close> on a dict of \<open>str\<close> and \<open>int\<close> values: every key and every
  value (through \<open>str\<close>) goes through \<open>quote_plus\<close>, pairs are written \<open>key=value\<close> and
  joined by \<open>&\<close>. \<open>quote_plus\<close> keeps the unreserved characters, writes a space as \<open>+\<close>
  and every other character as the \<open>%XX\<close> escapes of its UTF-8 bytes.
\<close>

definition always_safe :: "char \<Rightarrow> bool" where
  "always_safe c =
     (let n = (of_char c :: nat)
      in (65 \<le> n \<and> n \<le> 90) \<or> (97 \<le> n \<and> n \<le> 122) \<or> (48 \<le> n \<and> n \<le> 57) \<or>
         c = CHR ''_'' \<or> c = CHR ''.'' \<or> c = CHR ''-'' \<or> c = CHR ''~'')"

definition hex_digit :: "nat \<Rightarrow> char" where
  "hex_digit d = (if d < 10 then char_of (48 + d) else char_of (55 + d))"

definition percent_byte :: "nat \<Rightarrow> string" where
  "percent_byte b = [CHR ''%'', hex_digit (b div 16), hex_digit (b mod 16)]"

definition utf8_bytes :: "char \<Rightarrow> nat list" where
  "utf8_bytes c =
     (let n = (of_char c :: nat)
      in if n < 128 then [n] else [192 + n div 64, 128 + n mod 64])"

definition quote_plus_char :: "char \<Rightarrow> string" where
  "quote_plus_char c =
     (if always_safe c then [c]
      else if c = CHR '' '' then ''+''
      else concat (map percent_byte (utf8_bytes c)))"

definition quote_plus :: "string \<Rightarrow> string" where
  "quote_plus s = concat (map quote_plus_char s)"

datatype param = PStr string | PInt int

fun py_str :: "param \<Rightarrow> string" where
  "py_str (PStr s) = s"
| "py_str (PInt i) = str_int i"

fun join :: "string \<Rightarrow> string list \<Rightarrow> string" where
  "join sep [] = []"
| "join sep [x] = x"
| "join sep (x # y # ys) = x @ sep @ join sep (y # ys)"

definition urlencode :: "(string \<times> param) list \<Rightarrow> string" where
  "urlencode query =
     join ''&'' (map (\<lambda>(k, v). quote_plus k @ ''='' @ quote_plus (py_str v)) query)"

definition BASE_URL :: string where
  "BASE_URL = ''https://www.bing.com/search''"

definition build_search_url :: "string \<Rightarrow> int \<Rightarrow> int \<Rightarrow> string \<Rightarrow> string \<Rightarrow> string" where
  "build_search_url term page results_per_page market_code language_code =
     (let first = (page - 1) * results_per_page + 1;
          params = [(''q'', PStr term),
                    (''mkt'', PStr market_code),
                    (''setLang'', PStr language_code),
                    (''count'', PInt results_per_page),
                    (''first'', PInt first)]
      in BASE_URL @ ''?'' @ urlencode params)"

section \<open>Page fetcher (\<open>BingSearchScraper._fetch_page\<close>)\<close>

definition DEFAULT_USER_AGENTS :: "string list" where
  "DEFAULT_USER_AGENTS =
     [''Mozilla/5.0 (Windows NT 10.0; Win64; x64) '' @
      ''AppleWebKit/537.36 (KHTML, like Gecko) '' @
      ''Chrome/123.0 Safari/537.36'',
      ''Mozilla/5.0 (Macintosh; Intel Mac OS X 10_15_7) '' @
      ''AppleWebKit/605.1.15 (KHTML, like Gecko) '' @
      ''Version/17.0 Safari/605.1.15'',
      ''Mozilla/5.0 (X11; Linux x86_64) '' @
      ''AppleWebKit/537.36 (KHTML, like Gecko) '' @
      ''Chrome/122.0 Safari/537.36'']"

record scraper =
  market_code :: string
  language_code :: string
  results_per_page :: int
  include_html :: bool
  softblock :: softblock_handler
  request_timeout :: int
  proxy :: "string option"

text \<open>
  The \<open>while True\<close> loop of \<open>_fetch_page\<close>. \<open>headers\<close> is built before the loop and is a
  parameter here; \<open>attempt\<close> is the loop's counter on entry to an iteration.
\<close>

function fetch_loop ::
  "scraper \<Rightarrow> string \<Rightarrow> (string \<times> string) list \<Rightarrow> int \<Rightarrow> world \<Rightarrow> (exn + string) \<times> world" where
  "fetch_loop self url headers attempt w =
     (case session_get url headers (request_timeout self) w of
        (Raises exc, w1) \<Rightarrow>
          (if exc = Timeout \<or> exc = ConnectionError then
             (if attempt + 1 \<ge> max_retries (softblock self) then (Inl exc, w1)
              else
                (case compute_backoff (softblock self) (attempt + 1) w1 of
                   (Inl e, w2) \<Rightarrow> (Inl e, w2)
                 | (Inr delay, w2) \<Rightarrow>
                    (case time_sleep delay w2 of
                       (Inl e, w3) \<Rightarrow> (Inl e, w3)
                     | (Inr u, w3) \<Rightarrow> fetch_loop self url headers (attempt + 1) w3)))
           else (Inl exc, w1))
      | (Response body ok, w1) \<Rightarrow>
          (if is_soft_blocked body then handle_soft_block (softblock self) url (Some body) w1
           else (Inr body, w1)))"
  by pat_completeness auto
termination
  by (relation "measure (\<lambda>(self, url, headers, attempt, w).
        nat (max_retries (softblock self) - attempt))") auto

definition fetch_page :: "scraper \<Rightarrow> string \<Rightarrow> world \<Rightarrow> (exn + string) \<times> world" where
  "fetch_page self url w =
     (case random_choice DEFAULT_USER_AGENTS w of (ua, w0) \<Rightarrow>
        (let headers = [(''User-Agent'', ua)]
         in fetch_loop self url headers 0 w0))"

section \<open>Record extractor (\<open>BingSearchScraper._parse_page\<close> and its helpers)\<close>

text \<open>
  The extractor works on the tree that \<open>BeautifulSoup(html, "lxml")\<close> returns, through a
  handful of calls of that library. The library is not part of the program, so its calls
  are a parameter: a record of functions over an arbitrary type \<open>'n\<close> of tree nodes. Every
  statement below holds for whatever these functions compute.
  \<^item> \<open>bs_parse html\<close> is \<open>BeautifulSoup(html, "lxml")\<close>;
  \<^item> \<open>bs_select n css\<close> is \<open>n.select(css)\<close>;
  \<^item> \<open>bs_find_all n name\<close> is \<open>n.find_all(name)\<close>;
  \<^item> \<open>bs_find_class n name c\<close> is \<open>n.find(name, class_=c)\<close>;
  \<^item> \<open>bs_find_href n name\<close> is \<open>n.find(name, href=True)\<close>;
  \<^item> \<open>bs_get n key\<close> is \<open>n.get(key)\<close> for the string-valued attributes \<open>href\<close> and \<open>src\<close>;
  \<^item> \<open>bs_classes n\<close> is \<open>n.get("class", [])\<close>;
  \<^item> \<open>bs_get_text n sep\<close> is \<open>n.get_text(sep, strip=True)\<close>.
  A found tag is truthy, so \<open>not tag\<close> holds for \<open>None\<close> only.

  A call of the library can also raise instead of returning. This is modelled for the
  calls that work on the whole document, one at the head of each step of \<open>_parse_page\<close>:
  \<^item> \<open>bs_parse_error html\<close> is the exception that \<open>BeautifulSoup(html, "lxml")\<close> raises, if
    it raises;
  \<^item> \<open>bs_select_error soup css\<close> is the exception that \<open>soup.select(css)\<close> or
    \<open>soup.select_one(css)\<close> raises on the parsed document, if it raises.
  The functions above say what a call returns when it returns. The calls on the nodes
  found inside the document are taken to return.
\<close>

record 'n bs4 =
  bs_parse :: "string \<Rightarrow> 'n"
  bs_select :: "'n \<Rightarrow> string \<Rightarrow> 'n list"
  bs_find_all :: "'n \<Rightarrow> string \<Rightarrow> 'n list"
  bs_find_class :: "'n \<Rightarrow> string \<Rightarrow> string \<Rightarrow> 'n option"
  bs_find_href :: "'n \<Rightarrow> string \<Rightarrow> 'n option"
  bs_get :: "'n \<Rightarrow> string \<Rightarrow> string option"
  bs_classes :: "'n \<Rightarrow> string list"
  bs_get_text :: "'n \<Rightarrow> string \<Rightarrow> string"
  bs_parse_error :: "string \<Rightarrow> exn option"
  bs_select_error :: "'n \<Rightarrow> string \<Rightarrow> exn option"

text \<open>\<open>select_one\<close> and \<open>find\<close> are the first match of \<open>select\<close> and \<open>find_all\<close>.\<close>

definition first_of :: "'a list \<Rightarrow> 'a option" where
  "first_of xs = (case xs of [] \<Rightarrow> None | x # rest \<Rightarrow> Some x)"

definition bs_select_one :: "'n bs4 \<Rightarrow> 'n \<Rightarrow> string \<Rightarrow> 'n option" where
  "bs_select_one L n css = first_of (bs_select L n css)"

definition bs_find :: "'n bs4 \<Rightarrow> 'n \<Rightarrow> string \<Rightarrow> 'n option" where
  "bs_find L n name = first_of (bs_find_all L n name)"

subsection \<open>Results total\<close>

text \<open>
  \<open>str.isdigit\<close> on the code points 0 to 255 holds for the ten decimal digits and for
  the superscripts two, three and one (178, 179, 185). \<open>int\<close> accepts the decimal digits
  only and, in CPython 3.11 and later, at most 4300 of them; otherwise it raises
  \<open>ValueError\<close>. \<open>int_of_digits\<close> is \<open>int(s)\<close> for a string of \<open>isdigit\<close> characters.
\<close>

definition py_isdigit :: "char \<Rightarrow> bool" where
  "py_isdigit c =
     (let n = (of_char c :: nat) in (48 \<le> n \<and> n \<le> 57) \<or> n = 178 \<or> n = 179 \<or> n = 185)"

definition is_decimal :: "char \<Rightarrow> bool" where
  "is_decimal c = (let n = (of_char c :: nat) in 48 \<le> n \<and> n \<le> 57)"

definition decimal_value :: "string \<Rightarrow> int" where
  "decimal_value s = foldl (\<lambda>acc c. 10 * acc + (int (of_char c) - 48)) 0 s"

definition int_of_digits :: "string \<Rightarrow> exn + int" where
  "int_of_digits s =
     (if s = [] \<or> \<not> list_all is_decimal s \<or> length s > 4300 then Inl ValueError
      else Inr (decimal_value s))"

text \<open>
  The body of the \<open>try\<close> block, and the function with its \<open>except Exception\<close>. This is the
  only \<open>try\<close> of the extractor: it catches what \<open>select_one\<close> and \<open>int\<close> raise.
\<close>

definition results_total_try :: "'n bs4 \<Rightarrow> 'n \<Rightarrow> exn + int option" where
  "results_total_try L soup =
     (case bs_select_error L soup ''#b_tween .sb_count'' of
        Some e \<Rightarrow> Inl e
      | None \<Rightarrow>
          (case bs_select_one L soup ''#b_tween .sb_count'' of
             None \<Rightarrow> Inr None
           | Some count_el \<Rightarrow>
               (if bs_get_text L count_el '''' = '''' then Inr None
                else
                  (let text = bs_get_text L count_el '' '';
                       digits = filter py_isdigit text
                   in if digits \<noteq> ''''
                      then (case int_of_digits digits of
                              Inl e \<Rightarrow> Inl e
                            | Inr n \<Rightarrow> Inr (Some n))
                      else Inr None))))"

definition extract_results_total :: "'n bs4 \<Rightarrow> 'n \<Rightarrow> exn + int option" where
  "extract_results_total L soup =
     (case results_total_try L soup of
        Inl exc \<Rightarrow> Inr None
      | Inr v \<Rightarrow> Inr v)"

subsection \<open>Organic and paid items\<close>

record organic_item =
  o_iconUrl :: "string option"
  o_displayedUrl :: string
  o_title :: string
  o_url :: string
  o_description :: string
  o_emphasizedKeywords :: "string list"
  o_type :: string
  o_position :: int

record paid_item =
  p_title :: string
  p_url :: string
  p_displayedUrl :: string
  p_description :: string
  p_type :: string
  p_position :: int

text \<open>
  The four list extractions have no \<open>try\<close>. Each begins with a \<open>select\<close> on the document
  and goes on with a loop over the nodes found. \<open>extract_organic_results\<close> and its three
  companions are what the functions return when that \<open>select\<close> returns; the calls
  themselves, which raise when the \<open>select\<close> raises, are \<open>call_extract_organic_results\<close>
  and its companions.
\<close>

text \<open>
  Both loops start with the same lines: \<open>title_el = li.find("h2")\<close>,
  \<open>link = title_el.find("a") if title_el else None\<close>, and \<open>continue\<close> when
  \<open>not link or not link.get("href")\<close>. \<open>heading_link\<close> gives the link and its href when
  the node is kept, and \<open>None\<close> when the node is skipped.
\<close>

definition heading_link :: "'n bs4 \<Rightarrow> 'n \<Rightarrow> ('n \<times> string) option" where
  "heading_link L li =
     (case bs_find L li ''h2'' of
        None \<Rightarrow> None
      | Some title_el \<Rightarrow>
          (case bs_find L title_el ''a'' of
             None \<Rightarrow> None
           | Some link \<Rightarrow>
               (case bs_get L link ''href'' of
                  None \<Rightarrow> None
                | Some href \<Rightarrow> if href = '''' then None else Some (link, href))))"

definition text_or :: "'n bs4 \<Rightarrow> 'n option \<Rightarrow> string \<Rightarrow> string \<Rightarrow> string" where
  "text_or L el sep dflt = (case el of None \<Rightarrow> dflt | Some e \<Rightarrow> bs_get_text L e sep)"

fun keyword_loop :: "'n bs4 \<Rightarrow> 'n list \<Rightarrow> string list \<Rightarrow> string list" where
  "keyword_loop L [] emphasized_keywords = emphasized_keywords"
| "keyword_loop L (strong # rest) emphasized_keywords =
     (let kw = bs_get_text L strong ''''
      in if kw \<noteq> '''' \<and> py_lower kw \<notin> set (map py_lower emphasized_keywords)
         then keyword_loop L rest (emphasized_keywords @ [kw])
         else keyword_loop L rest emphasized_keywords)"

definition icon_url_of :: "'n bs4 \<Rightarrow> 'n \<Rightarrow> string option" where
  "icon_url_of L li =
     (case bs_select_one L li ''img.favicon, img.b_primicon'' of
        None \<Rightarrow> None
      | Some icon_el \<Rightarrow>
          (case bs_get L icon_el ''src'' of
             None \<Rightarrow> None
           | Some src \<Rightarrow> if src = '''' then None else Some src))"

fun organic_loop ::
  "'n bs4 \<Rightarrow> 'n list \<Rightarrow> int \<Rightarrow> organic_item list \<Rightarrow> organic_item list" where
  "organic_loop L [] position items = items"
| "organic_loop L (li # rest) position items =
     (case heading_link L li of
        None \<Rightarrow> organic_loop L rest position items
      | Some (link, href) \<Rightarrow>
          organic_loop L rest (position + 1)
            (items @
             [\<lparr>o_iconUrl = icon_url_of L li,
               o_displayedUrl =
                 text_or L (bs_select_one L li ''div.b_attribution cite'') '''' href,
               o_title = bs_get_text L link '''',
               o_url = href,
               o_description = text_or L (bs_find L li ''p'') '' '' '''',
               o_emphasizedKeywords = keyword_loop L (bs_find_all L li ''strong'') [],
               o_type = ''organic'',
               o_position = position + 1\<rparr>]))"

definition extract_organic_results :: "'n bs4 \<Rightarrow> 'n \<Rightarrow> organic_item list" where
  "extract_organic_results L soup =
     organic_loop L (bs_select L soup ''#b_results li.b_algo'') 0 []"

definition call_extract_organic_results :: "'n bs4 \<Rightarrow> 'n \<Rightarrow> exn + organic_item list" where
  "call_extract_organic_results L soup =
     (case bs_select_error L soup ''#b_results li.b_algo'' of
        Some e \<Rightarrow> Inl e
      | None \<Rightarrow> Inr (extract_organic_results L soup))"

fun paid_loop :: "'n bs4 \<Rightarrow> 'n list \<Rightarrow> int \<Rightarrow> paid_item list \<Rightarrow> paid_item list" where
  "paid_loop L [] position items = items"
| "paid_loop L (li # rest) position items =
     (case heading_link L li of
        None \<Rightarrow> paid_loop L rest position items
      | Some (link, href) \<Rightarrow>
          paid_loop L rest (position + 1)
            (items @
             [\<lparr>p_title = bs_get_text L link '''',
               p_url = href,
               p_displayedUrl =
                 text_or L
                   (bs_select_one L li ''div.b_adurl cite, div.b_attribution cite'') '''' href,
               p_description = text_or L (bs_find L li ''p'') '' '' '''',
               p_type = ''ad'',
               p_position = position + 1\<rparr>]))"

definition extract_paid_results :: "'n bs4 \<Rightarrow> 'n \<Rightarrow> paid_item list" where
  "extract_paid_results L soup =
     paid_loop L (bs_select L soup ''#b_results li.b_ad, #b_results li.b_adresult'') 0 []"

definition call_extract_paid_results :: "'n bs4 \<Rightarrow> 'n \<Rightarrow> exn + paid_item list" where
  "call_extract_paid_results L soup =
     (case bs_select_error L soup ''#b_results li.b_ad, #b_results li.b_adresult'' of
        Some e \<Rightarrow> Inl e
      | None \<Rightarrow> Inr (extract_paid_results L soup))"

subsection \<open>Question/answer items and related queries\<close>

record paa_item =
  a_url :: "string option"
  a_question :: string
  a_answer :: "string option"

record related_item =
  r_title :: string
  r_url :: "string option"

definition paa_of_block :: "'n bs4 \<Rightarrow> 'n \<Rightarrow> paa_item option" where
  "paa_of_block L block =
     (case bs_find_class L block ''div'' ''b_qa'' of
        None \<Rightarrow> None
      | Some question_el \<Rightarrow>
          (let question_text = text_or L (bs_find_class L question_el ''div'' ''b_q'') '' '' '''';
               answer_text = text_or L (bs_find_class L question_el ''div'' ''b_a'') '' '' '''';
               url = (case bs_find_href L question_el ''a'' of
                        None \<Rightarrow> None
                      | Some link \<Rightarrow> bs_get L link ''href'')
           in if question_text \<noteq> ''''
              then Some \<lparr>a_url = url, a_question = question_text,
                         a_answer = (if answer_text = '''' then None else Some answer_text)\<rparr>
              else None))"

fun paa_loop :: "'n bs4 \<Rightarrow> 'n list \<Rightarrow> paa_item list \<Rightarrow> paa_item list" where
  "paa_loop L [] items = items"
| "paa_loop L (block # rest) items =
     (case paa_of_block L block of
        None \<Rightarrow> paa_loop L rest items
      | Some item \<Rightarrow> paa_loop L rest (items @ [item]))"

definition extract_people_also_ask :: "'n bs4 \<Rightarrow> 'n \<Rightarrow> paa_item list" where
  "extract_people_also_ask L soup = paa_loop L (bs_select L soup ''#b_context .b_expando'') []"

definition call_extract_people_also_ask :: "'n bs4 \<Rightarrow> 'n \<Rightarrow> exn + paa_item list" where
  "call_extract_people_also_ask L soup =
     (case bs_select_error L soup ''#b_context .b_expando'' of
        Some e \<Rightarrow> Inl e
      | None \<Rightarrow> Inr (extract_people_also_ask L soup))"

fun related_loop :: "'n bs4 \<Rightarrow> 'n list \<Rightarrow> related_item list \<Rightarrow> related_item list" where
  "related_loop L [] items = items"
| "related_loop L (li # rest) items =
     (case bs_find_href L li ''a'' of
        None \<Rightarrow> related_loop L rest items
      | Some link \<Rightarrow>
          (let title = bs_get_text L link '' '';
               url = bs_get L link ''href''
           in if title \<noteq> ''''
              then related_loop L rest (items @ [\<lparr>r_title = title, r_url = url\<rparr>])
              else related_loop L rest items))"

definition extract_related_queries :: "'n bs4 \<Rightarrow> 'n \<Rightarrow> related_item list" where
  "extract_related_queries L soup =
     (case bs_select L soup ''#b_context .b_rs, #b_context .b_rs ul li'' of
        [] \<Rightarrow> []
      | first # others \<Rightarrow>
          (let li_items =
                 (if ''b_rs'' \<in> set (bs_classes L first) then bs_select L first ''li''
                  else first # others)
           in related_loop L li_items []))"

definition call_extract_related_queries :: "'n bs4 \<Rightarrow> 'n \<Rightarrow> exn + related_item list" where
  "call_extract_related_queries L soup =
     (case bs_select_error L soup ''#b_context .b_rs, #b_context .b_rs ul li'' of
        Some e \<Rightarrow> Inl e
      | None \<Rightarrow> Inr (extract_related_queries L soup))"

subsection \<open>The page record\<close>

record search_query_meta =
  sq_term :: string
  sq_resultsPerPage :: int
  sq_page :: int
  sq_url :: string
  sq_marketCode :: string
  sq_languageCode :: string

text \<open>The dict that \<open>_parse_page\<close> returns; \<open>htmlText\<close> is its key \<open>html\<close>, and the key
  \<open>htmlSnapshotUrl\<close>, always \<open>None\<close>, is the unit field.\<close>

record page_record =
  searchQuery :: search_query_meta
  htmlText :: "string option"
  htmlSnapshotUrl :: unit
  resultsTotal :: "int option"
  organicResults :: "organic_item list"
  paidResults :: "paid_item list"
  peopleAlsoAsk :: "paa_item list"
  relatedQueries :: "related_item list"

definition parse_page ::
  "'n bs4 \<Rightarrow> scraper \<Rightarrow> string \<Rightarrow> search_query_meta \<Rightarrow> exn + page_record" where
  "parse_page L self html meta =
     (case bs_parse_error L html of
        Some e \<Rightarrow> Inl e
      | None \<Rightarrow>
          (let soup = bs_parse L html
           in case extract_results_total L soup of
                Inl e \<Rightarrow> Inl e
              | Inr results_total \<Rightarrow>
           (case call_extract_organic_results L soup of
                Inl e \<Rightarrow> Inl e
              | Inr organic_results \<Rightarrow>
           (case call_extract_paid_results L soup of
                Inl e \<Rightarrow> Inl e
              | Inr paid_results \<Rightarrow>
           (case call_extract_people_also_ask L soup of
                Inl e \<Rightarrow> Inl e
              | Inr people_also_ask \<Rightarrow>
           (case call_extract_related_queries L soup of
                Inl e \<Rightarrow> Inl e
              | Inr related_queries \<Rightarrow>
                  Inr \<lparr>searchQuery = meta,
                       htmlText = (if include_html self then Some html else None),
                       htmlSnapshotUrl = (),
                       resultsTotal = results_total,
                       organicResults = organic_results,
                       paidResults = paid_results,
                       peopleAlsoAsk = people_also_ask,
                       relatedQueries = related_queries\<rparr>))))))"

section \<open>Query orchestrator (\<open>BingSearchScraper.search\<close>)\<close>

text \<open>\<open>x or default\<close> for an optional integer and an optional string: \<open>None\<close>, zero and
  the empty string are falsy.\<close>

definition int_or :: "int option \<Rightarrow> int \<Rightarrow> int" where
  "int_or x dflt = (case x of None \<Rightarrow> dflt | Some i \<Rightarrow> if i = 0 then dflt else i)"

definition str_or :: "string option \<Rightarrow> string \<Rightarrow> string" where
  "str_or x dflt = (case x of None \<Rightarrow> dflt | Some s \<Rightarrow> if s = '''' then dflt else s)"

text \<open>The \<open>for page in range(1, pages + 1)\<close> loop, over the pages still to do, with the
  list \<open>results\<close> built so far.\<close>

fun search_loop ::
  "'n bs4 \<Rightarrow> scraper \<Rightarrow> string \<Rightarrow> int \<Rightarrow> string \<Rightarrow> string \<Rightarrow> int list \<Rightarrow>
   page_record list \<Rightarrow> world \<Rightarrow>
   (exn + page_record list) \<times> world" where
  "search_loop L self term rp mkt lang [] results w = (Inr results, w)"
| "search_loop L self term rp mkt lang (page # pages) results w =
     (let url = build_search_url term page rp mkt lang;
          search_meta = \<lparr>sq_term = term, sq_resultsPerPage = rp, sq_page = page,
                         sq_url = url, sq_marketCode = mkt, sq_languageCode = lang\<rparr>
      in case fetch_page self url w of
           (Inl e, w1) \<Rightarrow> (Inl e, w1)
         | (Inr html, w1) \<Rightarrow>
             (case parse_page L self html search_meta of
                Inl e \<Rightarrow> (Inl e, w1)
              | Inr page_result \<Rightarrow>
                  (case random_uniform (float_round (8 / 10)) (float_round (16 / 10)) w1 of
                     (pause, w2) \<Rightarrow>
                   (case time_sleep pause w2 of
                      (Inl e, w3) \<Rightarrow> (Inl e, w3)
                    | (Inr u, w3) \<Rightarrow>
                        search_loop L self term rp mkt lang pages (results @ [page_result]) w3))))"

definition search ::
  "'n bs4 \<Rightarrow> scraper \<Rightarrow> string \<Rightarrow> int \<Rightarrow> int option \<Rightarrow> string option \<Rightarrow> string option \<Rightarrow>
   world \<Rightarrow> (exn + page_record list) \<times> world" where
  "search L self term pages results_per_page' market_code' language_code' w =
     (let rp = int_or results_per_page' (results_per_page self);
          mkt = str_or market_code' (market_code self);
          lang = str_or language_code' (language_code self)
      in search_loop L self term rp mkt lang [1..pages] [] w)"

section \<open>Notions used in the statements and proofs\<close>

declare str_nat.simps [simp del] retry_loop.simps [simp del] fetch_loop.simps [simp del]

text \<open>The jitter that \<open>compute_backoff\<close> draws in a world: half of the next unit draw.\<close>

definition jitter_of :: "world \<Rightarrow> real" where
  "jitter_of w = unit_draw (rnd w (drawn w)) / 2"

text \<open>The rounded power of \<open>backoff_base\<close>, whether or not it is a finite double, and the
  test that it is not.\<close>

definition base_of :: "softblock_handler \<Rightarrow> int \<Rightarrow> real" where
  "base_of self attempt =
     (if attempt > 0 then float_round (backoff_factor self ^ nat (attempt - 1)) else 1)"

definition pow_overflows :: "softblock_handler \<Rightarrow> int \<Rightarrow> bool" where
  "pow_overflows self attempt = (attempt > 0 \<and> 2 ^ 1024 \<le> \<bar>base_of self attempt\<bar>)"

text \<open>The delay that \<open>compute_backoff\<close> returns in a world, when it returns.\<close>

definition delay_of :: "softblock_handler \<Rightarrow> int \<Rightarrow> world \<Rightarrow> real" where
  "delay_of self attempt w = float_round (base_of self attempt + jitter_of w)"

text \<open>The exception with which \<open>time.sleep\<close> refuses a duration, if it does.\<close>

definition sleep_error :: "real \<Rightarrow> exn option" where
  "sleep_error secs =
     (if float_round (secs * 10 ^ 9) < - (2 ^ 63) \<or> 2 ^ 63 \<le> float_round (secs * 10 ^ 9)
      then Some OverflowError
      else if secs < 0 then Some ValueError
      else None)"

text \<open>The world after the jitter has been drawn.\<close>

definition drew_world :: "world \<Rightarrow> world" where
  "drew_world w = w\<lparr>drawn := drawn w + 1, trace := trace w @ [Uniform (jitter_of w)]\<rparr>"


text \<open>The world after one whole recovery attempt (draw the jitter, sleep, draw the
  browser version, send the request), when the sleep is accepted.\<close>

definition attempt_world :: "softblock_handler \<Rightarrow> string \<Rightarrow> int \<Rightarrow> world \<Rightarrow> world" where
  "attempt_world self url attempt w =
     (let d = delay_of self (attempt + 1) w;
          v = 110 + int (rnd w (drawn w + 1) mod 16)
      in w\<lparr>drawn := drawn w + 2, sent := sent w + 1,
           trace := trace w @ [Uniform (jitter_of w), Sleep d, Randint v,
                               Get url (recovery_headers v) 15]\<rparr>)"

text \<open>The pause that \<open>search\<close> draws between two pages in a world.\<close>

definition pause_of :: "world \<Rightarrow> real" where
  "pause_of w = fst (random_uniform (float_round (8 / 10)) (float_round (16 / 10)) w)"


text \<open>
  The exceptions that the four list extractions of \<open>_parse_page\<close> raise on a document, in
  the order of the calls.
\<close>

definition list_errors :: "'n bs4 \<Rightarrow> 'n \<Rightarrow> exn list" where
  "list_errors L soup =
     List.map_filter (bs_select_error L soup)
       [''#b_results li.b_algo'',
        ''#b_results li.b_ad, #b_results li.b_adresult'',
        ''#b_context .b_expando'',
        ''#b_context .b_rs, #b_context .b_rs ul li'']"


text \<open>The target locator that \<open>search\<close> builds for a page, with the defaults of the
  scraper filled in.\<close>

definition page_url :: "scraper \<Rightarrow> string \<Rightarrow> int \<Rightarrow> int option \<Rightarrow> string option \<Rightarrow> string option \<Rightarrow> string" where
  "page_url self term page rp' mkt' lang' =
     build_search_url term page (int_or rp' (results_per_page self))
       (str_or mkt' (market_code self)) (str_or lang' (language_code self))"

text \<open>A request of the block-recovery procedure is known by its no-cache directive.\<close>

definition is_recovery :: "(string \<times> string) list \<Rightarrow> bool" where
  "is_recovery headers = (map_of headers ''Cache-Control'' = Some ''no-cache'')"

text \<open>
  A trace in which every attempt of the fetcher's own loop carries a freshly drawn user
  agent: each of its requests comes after a draw from the pool made since the request
  before it, and carries the string drawn. \<open>pending\<close> is the draw not yet used.
\<close>

fun fresh_ua_per_attempt :: "string option \<Rightarrow> event list \<Rightarrow> bool" where
  "fresh_ua_per_attempt pending [] = True"
| "fresh_ua_per_attempt pending (Choice ua # es) = fresh_ua_per_attempt (Some ua) es"
| "fresh_ua_per_attempt pending (Get u headers t # es) =
     (if is_recovery headers then fresh_ua_per_attempt pending es
      else pending \<noteq> None \<and> map_of headers ''User-Agent'' = pending \<and>
           fresh_ua_per_attempt None es)"
| "fresh_ua_per_attempt pending (e # es) = fresh_ua_per_attempt pending es"

text \<open>An event of a fetch that draws no further user agent: no draw from the pool, and a
  request carries the given user agent unless it belongs to the recovery procedure.\<close>

fun same_ua_event :: "string \<Rightarrow> event \<Rightarrow> bool" where
  "same_ua_event ua (Choice x) = False"
| "same_ua_event ua (Get u headers t) = (is_recovery headers \<or> headers = [(''User-Agent'', ua)])"
| "same_ua_event ua e = True"

fun recovery_event :: "event \<Rightarrow> bool" where
  "recovery_event (Choice x) = False"
| "recovery_event (Get u headers t) = is_recovery headers"
| "recovery_event e = True"

text \<open>The world after a request of the fetcher's loop, and after a failed request
  followed by the backoff sleep.\<close>

definition sent_world :: "scraper \<Rightarrow> string \<Rightarrow> (string \<times> string) list \<Rightarrow> world \<Rightarrow> world" where
  "sent_world self url headers w =
     w\<lparr>sent := sent w + 1, trace := trace w @ [Get url headers (request_timeout self)]\<rparr>"

definition retry_world :: "scraper \<Rightarrow> string \<Rightarrow> (string \<times> string) list \<Rightarrow> int \<Rightarrow> world \<Rightarrow> world" where
  "retry_world self url headers attempt w =
     w\<lparr>sent := sent w + 1, drawn := drawn w + 1,
       trace := trace w @
         [Get url headers (request_timeout self), Uniform (jitter_of w),
          Sleep (delay_of (softblock self) (attempt + 1) w)]\<rparr>"

section \<open>A small document model for the examples\<close>

text \<open>
  The statements about the extractor hold for any behaviour of the library; the examples
  need one. This is a tree of elements and text with the library calls the extractor
  makes: tags, ids and classes, the descendant combinator and comma lists of selectors,
  and \<open>get_text\<close> with stripping. A node does not know its parents here, so a selector
  is matched inside the subtree of the node on which it is called. No call raises.
\<close>

datatype node = Elem string "(string \<times> string) list" "node list" | Txt string

text \<open>The nodes below a node in document order, each with its ancestors (nearest
  first, the node of the call last).\<close>

fun walk :: "node list \<Rightarrow> node \<Rightarrow> (node list \<times> node) list"
  and walks :: "node list \<Rightarrow> node list \<Rightarrow> (node list \<times> node) list" where
  "walk ancs (Txt s) = []"
| "walk ancs (Elem t a cs) = walks (Elem t a cs # ancs) cs"
| "walks ancs [] = []"
| "walks ancs (c # cs) = (ancs, c) # walk ancs c @ walks ancs cs"

text \<open>Splitting at a separator, without empty pieces; \<open>acc\<close> is the piece being read.\<close>

fun split_on :: "char \<Rightarrow> string \<Rightarrow> string \<Rightarrow> string list" where
  "split_on sep acc [] = (if acc = [] then [] else [acc])"
| "split_on sep acc (c # cs) =
     (if c = sep then (if acc = [] then [] else [acc]) @ split_on sep [] cs
      else split_on sep (acc @ [c]) cs)"

text \<open>A selector: a comma list of chains of compound selectors.\<close>

datatype simple = Tag string | Id string | Class string

definition emit :: "char \<Rightarrow> string \<Rightarrow> simple list" where
  "emit k acc =
     (if acc = [] then []
      else if k = CHR ''#'' then [Id acc]
      else if k = CHR ''.'' then [Class acc]
      else [Tag acc])"

fun scan :: "char \<Rightarrow> string \<Rightarrow> string \<Rightarrow> simple list" where
  "scan k acc [] = emit k acc"
| "scan k acc (c # cs) =
     (if c = CHR ''#'' \<or> c = CHR ''.'' then emit k acc @ scan c [] cs
      else scan k (acc @ [c]) cs)"

definition parse_css :: "string \<Rightarrow> simple list list list" where
  "parse_css css =
     map (\<lambda>part. map (scan CHR '' '' []) (split_on CHR '' '' [] part)) (split_on CHR '','' [] css)"

fun attrs_of :: "node \<Rightarrow> (string \<times> string) list" where
  "attrs_of (Elem t a cs) = a"
| "attrs_of (Txt s) = []"

definition class_tokens :: "node \<Rightarrow> string list" where
  "class_tokens n =
     (case map_of (attrs_of n) ''class'' of None \<Rightarrow> [] | Some v \<Rightarrow> split_on CHR '' '' [] v)"

fun has_tag :: "string \<Rightarrow> node \<Rightarrow> bool" where
  "has_tag name (Elem t a cs) = (t = name)"
| "has_tag name (Txt s) = False"

fun matches_simple :: "node \<Rightarrow> simple \<Rightarrow> bool" where
  "matches_simple n (Tag t) = has_tag t n"
| "matches_simple n (Id i) = (map_of (attrs_of n) ''id'' = Some i)"
| "matches_simple n (Class c) = (c \<in> set (class_tokens n))"

definition matches_compound :: "node \<Rightarrow> simple list \<Rightarrow> bool" where
  "matches_compound n compound = list_all (matches_simple n) compound"

fun anc_match :: "simple list list \<Rightarrow> node list \<Rightarrow> bool" where
  "anc_match [] ancs = True"
| "anc_match (c # cs) [] = False"
| "anc_match (c # cs) (a # ancs) =
     (if matches_compound a c then anc_match cs ancs else anc_match (c # cs) ancs)"

definition matches_complex :: "node list \<Rightarrow> node \<Rightarrow> simple list list \<Rightarrow> bool" where
  "matches_complex ancs n complex =
     (case rev complex of
        [] \<Rightarrow> False
      | last_c # outer \<Rightarrow> matches_compound n last_c \<and> anc_match outer ancs)"

fun is_elem :: "node \<Rightarrow> bool" where
  "is_elem (Elem t a cs) = True"
| "is_elem (Txt s) = False"

definition dom_select :: "node \<Rightarrow> string \<Rightarrow> node list" where
  "dom_select n css =
     map snd (filter (\<lambda>(ancs, c). is_elem c \<and> list_ex (matches_complex ancs c) (parse_css css))
                (walk [] n))"

definition dom_find_all :: "node \<Rightarrow> string \<Rightarrow> node list" where
  "dom_find_all n name = filter (has_tag name) (map snd (walk [] n))"

definition dom_find_class :: "node \<Rightarrow> string \<Rightarrow> string \<Rightarrow> node option" where
  "dom_find_class n name c =
     first_of (filter (\<lambda>e. has_tag name e \<and> c \<in> set (class_tokens e)) (map snd (walk [] n)))"

definition dom_find_href :: "node \<Rightarrow> string \<Rightarrow> node option" where
  "dom_find_href n name =
     first_of (filter (\<lambda>e. has_tag name e \<and> map_of (attrs_of e) ''href'' \<noteq> None)
                 (map snd (walk [] n)))"

text \<open>\<open>get_text(sep, strip=True)\<close>: the stripped, non-empty strings of the subtree, joined.\<close>

definition is_space :: "char \<Rightarrow> bool" where
  "is_space c = (let k = (of_char c :: nat) in (9 \<le> k \<and> k \<le> 13) \<or> k = 32)"

definition strip :: "string \<Rightarrow> string" where
  "strip s = rev (dropWhile is_space (rev (dropWhile is_space s)))"

fun text_of :: "node \<Rightarrow> string list" where
  "text_of (Txt s) = [s]"
| "text_of (Elem t a cs) = []"

definition dom_get_text :: "node \<Rightarrow> string \<Rightarrow> string" where
  "dom_get_text n sep =
     join sep (filter (\<lambda>s. s \<noteq> []) (map strip (concat (map (text_of \<circ> snd) (walk [] n)))))"

definition dom_lib :: "(string \<Rightarrow> node) \<Rightarrow> node bs4" where
  "dom_lib doc =
     \<lparr>bs_parse = doc, bs_select = dom_select, bs_find_all = dom_find_all,
      bs_find_class = dom_find_class, bs_find_href = dom_find_href,
      bs_get = (\<lambda>n key. map_of (attrs_of n) key), bs_classes = class_tokens,
      bs_get_text = dom_get_text,
      bs_parse_error = (\<lambda>html. None), bs_select_error = (\<lambda>n css. None)\<rparr>"

section \<open>Concrete inputs for the examples\<close>

text \<open>A world whose server answers with the given replies in turn (and refuses every
  further connection), whose \<open>k\<close>-th raw draw is \<open>k * 2^51\<close>, and in which nothing has happened.\<close>

definition scripted :: "reply list \<Rightarrow> world" where
  "scripted rs =
     \<lparr>net = (\<lambda>k. if k < length rs then rs ! k else Raises ConnectionError),
      rnd = (\<lambda>k. k * 2 ^ 51), sent = 0, drawn = 0, trace = []\<rparr>"

definition default_handler :: softblock_handler where
  "default_handler = \<lparr>max_retries = 3, backoff_factor = 3 / 2\<rparr>"

definition blocked_page :: string where
  "blocked_page = ''<p>Please VERIFY that you are a Human</p>''"

definition plain_page :: string where
  "plain_page = ''<ol id=b_results></ol>''"


definition default_scraper :: scraper where
  "default_scraper =
     \<lparr>market_code = ''en-US'', language_code = ''en'', results_per_page = 10,
      include_html = False, softblock = default_handler, request_timeout = 10,
      proxy = None\<rparr>"

text \<open>A library double whose trees have no nodes at all.\<close>

definition empty_lib :: "unit bs4" where
  "empty_lib =
     \<lparr>bs_parse = (\<lambda>html. ()), bs_select = (\<lambda>n css. []), bs_find_all = (\<lambda>n name. []),
      bs_find_class = (\<lambda>n name c. None), bs_find_href = (\<lambda>n name. None),
      bs_get = (\<lambda>n key. None), bs_classes = (\<lambda>n. []), bs_get_text = (\<lambda>n sep. ''''),
      bs_parse_error = (\<lambda>html. None), bs_select_error = (\<lambda>n css. None)\<rparr>"

text \<open>The first request is answered, each later one times out.\<close>

definition outage :: world where
  "outage = scripted [Response plain_page True, Raises Timeout, Raises Timeout, Raises Timeout]"

text \<open>A world in which every raw draw is the largest one, \<open>2^53 - 1\<close>.\<close>

definition top_draw :: world where
  "top_draw =
     \<lparr>net = (\<lambda>k. Raises ConnectionError), rnd = (\<lambda>k. 2 ^ 53 - 1),
      sent = 0, drawn = 0, trace = []\<rparr>"

text \<open>A results page with a count region, three organic listing nodes of which the second
  has no heading link, and one paid listing; and a page whose count reads \<open>1\<close>, superscript
  two, \<open>results\<close>.\<close>

definition listing :: "string \<Rightarrow> string \<Rightarrow> node" where
  "listing title href =
     Elem ''li'' [(''class'', ''b_algo'')]
       [Elem ''h2'' [] [Elem ''a'' [(''href'', href)] [Txt title]]]"

definition sample_page :: node where
  "sample_page =
     Elem ''[document]'' []
       [Elem ''html'' []
         [Elem ''body'' []
           [Elem ''div'' [(''id'', ''b_tween'')]
              [Elem ''span'' [(''class'', ''sb_count'')] [Txt '' About 1,234 results '']],
            Elem ''ol'' [(''id'', ''b_results'')]
              [listing ''First'' ''https://example.com'',
               Elem ''li'' [(''class'', ''b_algo'')] [Elem ''h2'' [] [Txt ''No link'']],
               Elem ''li'' [(''class'', ''b_algo extra'')]
                 [Elem ''h2'' [] [Elem ''a'' [(''href'', ''https://example.org/x'')]
                                    [Txt ''Second '', Elem ''strong'' [] [Txt ''Hit'']]],
                  Elem ''div'' [(''class'', ''b_attribution'')] [Elem ''cite'' [] [Txt ''example.org'']],
                  Elem ''p'' [] [Txt ''A '', Elem ''strong'' [] [Txt ''hit'']  , Txt '' here'']],
               Elem ''li'' [(''class'', ''b_ad'')]
                 [Elem ''h2'' [] [Elem ''a'' [(''href'', ''https://ads.example'')] [Txt ''Buy'']]]]]]]"

definition sample_lib :: "node bs4" where
  "sample_lib = dom_lib (\<lambda>html. sample_page)"

definition odd_count_page :: node where
  "odd_count_page =
     Elem ''[document]'' []
       [Elem ''div'' [(''id'', ''b_tween'')]
          [Elem ''span'' [(''class'', ''sb_count'')]
             [Txt (''1'' @ [char_of (178 :: nat)] @ '' results'')]],
        Elem ''ol'' [(''id'', ''b_results'')] [listing ''First'' ''https://example.com'']]"

definition odd_count_lib :: "node bs4" where
  "odd_count_lib = dom_lib (\<lambda>html. odd_count_page)"

text \<open>A handler with the factor \<open>1e10\<close> and a ceiling of two attempts.\<close>

definition steep_handler :: softblock_handler where
  "steep_handler = \<lparr>max_retries = 2, backoff_factor = 10 ^ 10\<rparr>"

text \<open>
  The library on the sample page, with a \<open>select\<close> that raises: the one for the organic
  listing nodes; those for the paid listing nodes and for the related queries; the one
  for the count region. And a library whose parser raises.
\<close>

definition organic_fault_lib :: "node bs4" where
  "organic_fault_lib =
     sample_lib\<lparr>bs_select_error :=
       (\<lambda>n css. if css = ''#b_results li.b_algo'' then Some (RuntimeError ''select'') else None)\<rparr>"

definition paid_fault_lib :: "node bs4" where
  "paid_fault_lib =
     sample_lib\<lparr>bs_select_error :=
       (\<lambda>n css. if css = ''#b_results li.b_ad, #b_results li.b_adresult''
                 then Some (RuntimeError ''paid'')
                 else if css = ''#b_context .b_rs, #b_context .b_rs ul li''
                 then Some (RuntimeError ''related'')
                 else None)\<rparr>"

definition total_fault_lib :: "node bs4" where
  "total_fault_lib =
     sample_lib\<lparr>bs_select_error :=
       (\<lambda>n css. if css = ''#b_tween .sb_count'' then Some (RuntimeError ''select'') else None)\<rparr>"

definition parser_fault_lib :: "node bs4" where
  "parser_fault_lib = sample_lib\<lparr>bs_parse_error := (\<lambda>html. Some (RuntimeError ''parse''))\<rparr>"

definition cats_meta :: search_query_meta where
  "cats_meta =
     \<lparr>sq_term = ''cats'', sq_resultsPerPage = 10, sq_page = 1, sq_url = ''u'',
      sq_marketCode = ''en-US'', sq_languageCode = ''en''\<rparr>"

section \<open>Facts about strings\<close>

lemma starts_with_prefix: "starts_with p s = prefix p s"
  by (induction p s rule: starts_with.induct) simp_all

lemma str_contains_sublist: "str_contains needle s = sublist needle s"
  by (induction s) (simp_all add: starts_with_prefix sublist_Cons_right)

lemma hint_loop_iff: "hint_loop hints lower = (\<exists>h \<in> set hints. sublist h lower)"
  by (induction hints) (simp_all add: str_contains_sublist)

lemma map_eq_sandwich:
  assumes "map f xs = ps @ h @ ss"
  shows "\<exists>a b c. xs = a @ b @ c \<and> map f b = h"
proof -
  define b where "b = take (length h) (drop (length ps) xs)"
  have "map f b = take (length h) (drop (length ps) (map f xs))"
    by (simp add: b_def take_map drop_map)
  also have "\<dots> = h"
    by (simp add: assms)
  finally have "map f b = h" .
  moreover have "xs = take (length ps) xs @ b @ drop (length h) (drop (length ps) xs)"
    unfolding b_def append_take_drop_id ..
  ultimately show ?thesis by blast
qed

lemma sublist_map_iff:
  "sublist h (map f xs) = (\<exists>s. sublist s xs \<and> map f s = h)"
proof
  assume "sublist h (map f xs)"
  then obtain ps ss where "map f xs = ps @ h @ ss"
    by (auto simp: sublist_def)
  from map_eq_sandwich [OF this] show "\<exists>s. sublist s xs \<and> map f s = h"
    by (auto simp: sublist_def)
next
  assume "\<exists>s. sublist s xs \<and> map f s = h"
  then show "sublist h (map f xs)"
    by (auto intro: map_mono_sublist)
qed

section \<open>Block detection is a case-insensitive phrase search\<close>

text \<open>
  Claim C1. \<open>is_soft_blocked\<close> answers true exactly for the markup that has a contiguous
  slice which, lower-cased, is one of the fixed block-indicator phrases: markup without
  any phrase in any letter case gives false, markup with a phrase in some letter case
  gives true.
\<close>

theorem is_soft_blocked_iff:
  "is_soft_blocked html =
     (\<exists>hint \<in> set SOFT_BLOCK_HINTS. \<exists>s. sublist s html \<and> py_lower s = hint)"
  by (simp add: is_soft_blocked_def hint_loop_iff py_lower_def sublist_map_iff)

section \<open>Rounding to a float\<close>

lemma half_even_cases: "half_even q = \<lfloor>q\<rfloor> \<or> half_even q = \<lfloor>q\<rfloor> + 1"
  by (simp add: half_even_def Let_def)

lemma half_even_of_int [simp]: "half_even (of_int n) = n"
  by (simp add: half_even_def)

lemma half_even_ge: "of_int a \<le> q \<Longrightarrow> a \<le> half_even q"
proof -
  assume "of_int a \<le> q"
  then have "a \<le> \<lfloor>q\<rfloor>" by (simp add: le_floor_iff)
  then show ?thesis using half_even_cases [of q] by linarith
qed

lemma half_even_le:
  assumes "q \<le> of_int b" shows "half_even q \<le> b"
proof (cases "q = of_int \<lfloor>q\<rfloor>")
  case True
  then have "half_even q = \<lfloor>q\<rfloor>" by (metis half_even_of_int)
  moreover have "\<lfloor>q\<rfloor> \<le> b" using assms by (simp add: floor_le_iff)
  ultimately show ?thesis by simp
next
  case False
  have "q \<noteq> of_int b" using False by (metis floor_of_int)
  with assms have "q < of_int b" by simp
  then have "\<lfloor>q\<rfloor> < b" by (simp add: floor_less_iff)
  then show ?thesis using half_even_cases [of q] by linarith
qed

lemma half_even_err: "\<bar>of_int (half_even q) - q\<bar> \<le> 1 / 2"
proof -
  have "of_int \<lfloor>q\<rfloor> \<le> q" "q < of_int \<lfloor>q\<rfloor> + 1" by linarith+
  then show ?thesis
    by (auto simp: half_even_def Let_def abs_le_iff)
qed

lemma binade_bounds:
  assumes "0 < x"
  shows "2 powi binade x \<le> x \<and> x < 2 powi (binade x + 1)"
proof (cases "1 \<le> x")
  case True
  define a where "a = nat \<lfloor>x\<rfloor>"
  have a: "0 < a" using True by (simp add: a_def)
  have ra: "real a \<le> x" "x < real a + 1" using True by (simp_all add: a_def)
  from floorlog_bounds [OF a, of 2]
  have b: "2 ^ (floorlog 2 a - 1) \<le> a" "a < 2 ^ floorlog 2 a" by simp_all
  have pos: "0 < floorlog 2 a" using a by (simp add: floorlog_def)
  have e: "binade x = int (floorlog 2 a - 1)"
    using True pos by (simp add: binade_def a_def)
  have "(2::real) ^ (floorlog 2 a - 1) \<le> real a"
    using b(1) by (metis of_nat_le_iff of_nat_numeral of_nat_power)
  from this ra(1) have "(2::real) ^ (floorlog 2 a - 1) \<le> x" by (rule order_trans)
  then have lo: "2 powi binade x \<le> x" by (simp add: e)
  have "Suc a \<le> 2 ^ floorlog 2 a" using b(2) by simp
  then have "real (Suc a) \<le> 2 ^ floorlog 2 a"
    by (metis of_nat_le_iff of_nat_numeral of_nat_power)
  then have "real a + 1 \<le> 2 ^ floorlog 2 a" by (simp add: add.commute)
  with ra(2) have "x < 2 ^ floorlog 2 a" by (rule less_le_trans)
  moreover have "binade x + 1 = int (floorlog 2 a)" using e pos by simp
  ultimately have hi: "x < 2 powi (binade x + 1)" by simp
  from lo hi show ?thesis by simp
next
  case False
  define y where "y = 1 / x"
  have y: "1 < y" using assms False by (simp add: y_def)
  define a where "a = nat (\<lceil>y\<rceil> - 1)"
  have cy: "2 \<le> \<lceil>y\<rceil>" using y by (simp add: le_ceiling_iff) 
  have a: "0 < a" using cy by (simp add: a_def)
  have ra: "y \<le> real a + 1" "real a < y"
    using cy by (simp_all add: a_def) linarith+
  from floorlog_bounds [OF a, of 2]
  have b: "2 ^ (floorlog 2 a - 1) \<le> a" "a < 2 ^ floorlog 2 a" by simp_all
  define c where "c = floorlog 2 a"
  have pos: "0 < c" using a by (simp add: floorlog_def c_def)
  have e: "binade x = - int c"
    using False by (simp add: binade_def a_def c_def y_def)
  have "Suc a \<le> 2 ^ c" using b(2) by (simp add: c_def)
  then have "real (Suc a) \<le> 2 ^ c"
    by (metis of_nat_le_iff of_nat_numeral of_nat_power)
  then have "real a + 1 \<le> 2 ^ c" by (simp add: add.commute)
  with ra(1) have "y \<le> 2 ^ c" by (rule order_trans)
  then have "1 / 2 ^ c \<le> x" using assms by (simp add: y_def field_simps)
  then have lo: "2 powi binade x \<le> x" by (simp add: e power_int_minus_divide)
  have "(2::real) ^ (c - 1) \<le> real a"
    using b(1) by (metis of_nat_le_iff of_nat_numeral of_nat_power c_def)
  from this ra(2) have "2 ^ (c - 1) < y" by (rule le_less_trans)
  then have "x < 1 / 2 ^ (c - 1)" using assms by (simp add: y_def field_simps)
  moreover have "binade x + 1 = - int (c - 1)" using e pos by simp
  ultimately have hi: "x < 2 powi (binade x + 1)" by (simp add: power_int_minus_divide)
  from lo hi show ?thesis by simp
qed

lemma binade_unique:
  assumes "2 powi e \<le> x" and "x < 2 powi (e + 1)"
  shows "binade x = e"
proof -
  have pos: "0 < x" using assms(1) by (smt (verit) zero_less_power_int)
  note b = binade_bounds [OF pos]
  have lt1: "2 powi e < (2::real) powi (binade x + 1)" using assms(1) b by simp
  have 1: "e < binade x + 1"
  proof (rule ccontr)
    assume "\<not> e < binade x + 1"
    then have "(2::real) powi (binade x + 1) \<le> 2 powi e"
      by (intro power_int_increasing) simp_all
    with lt1 show False by simp
  qed
  have lt2: "2 powi binade x < (2::real) powi (e + 1)" using assms(2) b by simp
  have 2: "binade x < e + 1"
  proof (rule ccontr)
    assume "\<not> binade x < e + 1"
    then have "(2::real) powi (e + 1) \<le> 2 powi binade x"
      by (intro power_int_increasing) simp_all
    with lt2 show False by simp
  qed
  from 1 2 show ?thesis by simp
qed

lemma binade_ge:
  assumes "2 powi k \<le> x"
  shows "k \<le> binade x"
proof -
  have pos: "0 < x" using assms by (smt (verit) zero_less_power_int)
  note b = binade_bounds [OF pos]
  have lt: "2 powi k < (2::real) powi (binade x + 1)" using assms b by simp
  have "k < binade x + 1"
  proof (rule ccontr)
    assume "\<not> k < binade x + 1"
    then have "(2::real) powi (binade x + 1) \<le> 2 powi k"
      by (intro power_int_increasing) simp_all
    with lt show False by simp
  qed
  then show ?thesis by simp
qed

lemma binade_le:
  assumes "0 < x" and "x \<le> 2 powi k"
  shows "binade x \<le> k"
proof (rule ccontr)
  assume "\<not> binade x \<le> k"
  then have "(2::real) powi (k + 1) \<le> 2 powi binade x"
    by (intro power_int_increasing) simp_all
  moreover have "(2::real) powi k < 2 powi (k + 1)"
    by (simp add: power_int_add)
  ultimately show False using binade_bounds [OF assms(1)] assms(2) by linarith
qed

lemma float_round_pos:
  assumes "0 < x"
  shows "float_round x =
     of_int (half_even (x / 2 powi (max (binade x) (- 1022) - 52))) *
       2 powi (max (binade x) (- 1022) - 52)"
  using assms by (simp add: float_round_def Let_def)

lemma float_round_binade:
  assumes "2 powi e \<le> x" and "x < 2 powi (e + 1)" and "- 1022 \<le> e"
  shows "float_round x = of_int (half_even (x / 2 powi (e - 52))) * 2 powi (e - 52)"
proof -
  have pos: "0 < x" using assms(1) by (smt (verit) zero_less_power_int)
  have "binade x = e" using binade_unique [OF assms(1,2)] by simp
  then have "max (binade x) (- 1022) = e" using assms(3) by simp
  then show ?thesis using float_round_pos [OF pos] by simp
qed

lemma float_round_minus: "float_round (- x) = - float_round x"
  by (simp add: float_round_def Let_def sgn_minus)

lemma half_even_nonneg: "0 \<le> q \<Longrightarrow> 0 \<le> half_even q"
  using half_even_ge [of 0 q] by simp

lemma float_round_nonneg: "0 \<le> x \<Longrightarrow> 0 \<le> float_round x"
  by (auto simp: float_round_def Let_def sgn_if intro!: mult_nonneg_nonneg half_even_nonneg
      divide_nonneg_nonneg)

lemma float_round_exact_pos:
  assumes "0 < m" and "m < 2 ^ 53" and "- 1074 \<le> t"
  shows "float_round (of_int m * 2 powi t) = of_int m * 2 powi t"
proof -
  define x :: real where "x = of_int m * 2 powi t"
  have pos: "0 < x" using assms(1) by (simp add: x_def zero_less_mult_iff)
  define e where "e = max (binade x) (- 1022)"
  note b = binade_bounds [OF pos]
  have "of_int m < (2::real) ^ 53"
    using assms(2) by (metis of_int_less_iff of_int_numeral of_int_power)
  then have "x < 2 ^ 53 * 2 powi t" by (simp add: x_def)
  also have "\<dots> = 2 powi (53 + t)" by (simp add: power_int_add)
  finally have "2 powi binade x < (2::real) powi (53 + t)" using b by simp
  have "binade x \<le> 52 + t"
  proof (rule ccontr)
    assume "\<not> binade x \<le> 52 + t"
    then have "(2::real) powi (53 + t) \<le> 2 powi binade x"
      by (intro power_int_increasing) simp_all
    with \<open>2 powi binade x < (2::real) powi (53 + t)\<close> show False by simp
  qed
  then have le: "e \<le> 52 + t" using assms(3) by (simp add: e_def)
  define k where "k = nat (52 + t - e)"
  have k: "int k = 52 + t - e" using le by (simp add: k_def)
  have "2 powi t / 2 powi (e - 52) = (2::real) powi (t - (e - 52))"
    by (simp add: power_int_diff)
  also have "t - (e - 52) = int k" using k by simp
  also have "2 powi (int k) = (2::real) ^ k" by simp
  finally have r: "2 powi t / 2 powi (e - 52) = (2::real) ^ k" .
  have "x / 2 powi (e - 52) = of_int m * (2 powi t / 2 powi (e - 52))"
    by (simp add: x_def)
  then have q: "x / 2 powi (e - 52) = of_int (m * 2 ^ k)"
    unfolding r by simp
  have "float_round x = of_int (half_even (x / 2 powi (e - 52))) * 2 powi (e - 52)"
    unfolding e_def by (rule float_round_pos [OF pos])
  also have "\<dots> = of_int (m * 2 ^ k) * 2 powi (e - 52)"
    by (simp only: q half_even_of_int)
  also have "\<dots> = x"
    by (simp only: q [symmetric]) simp
  finally show ?thesis by (simp add: x_def)
qed

lemma float_round_exact:
  assumes "\<bar>m\<bar> < 2 ^ 53" and "- 1074 \<le> t"
  shows "float_round (of_int m * 2 powi t) = of_int m * 2 powi t"
proof -
  consider "m = 0" | "0 < m" | "m < 0" by linarith
  then show ?thesis
  proof cases
    case 1
    then show ?thesis by (simp add: float_round_def)
  next
    case 2
    then show ?thesis using assms by (intro float_round_exact_pos) simp_all
  next
    case 3
    then have "float_round (of_int (- m) * 2 powi t) = of_int (- m) * 2 powi t"
      using assms by (intro float_round_exact_pos) simp_all
    then show ?thesis using float_round_minus [of "of_int m * 2 powi t"] by simp
  qed
qed

lemma float_round_error:
  assumes "1 \<le> x"
  shows "\<bar>float_round x - x\<bar> \<le> x / 2 ^ 53"
proof -
  have pos: "0 < x" using assms by simp
  define e where "e = binade x"
  note b = binade_bounds [OF pos, folded e_def]
  have "2 powi 0 \<le> x" using assms by simp
  then have e0: "0 \<le> e" unfolding e_def by (rule binade_ge)
  define u :: real where "u = 2 powi (e - 52)"
  have u: "0 < u" by (simp add: u_def)
  have fr: "float_round x = of_int (half_even (x / u)) * u"
    unfolding u_def using b e0 by (intro float_round_binade) simp_all
  have "float_round x - x = (of_int (half_even (x / u)) - x / u) * u"
    using u by (simp add: fr field_simps)
  then have "\<bar>float_round x - x\<bar> = \<bar>of_int (half_even (x / u)) - x / u\<bar> * u"
    using u by (simp add: abs_mult)
  also have "\<dots> \<le> 1 / 2 * u"
    using half_even_err [of "x / u"] u by (intro mult_right_mono) simp_all
  also have "\<dots> = 2 powi e / 2 ^ 53"
    by (simp add: u_def power_int_diff)
  also have "\<dots> \<le> x / 2 ^ 53"
    using b by (simp add: divide_right_mono)
  finally show ?thesis .
qed

lemma float_round_separated:
  assumes "1 \<le> x" and "3 / 2 * x \<le> y"
  shows "float_round x < float_round y"
proof -
  have y: "1 \<le> y" using assms by simp
  have "float_round x \<le> x + x / 2 ^ 53"
    using float_round_error [OF assms(1)] by linarith
  also have "\<dots> < 3 / 2 * x - (3 / 2 * x) / 2 ^ 53"
    using assms(1) by (simp add: field_simps)
  also have "\<dots> \<le> y - y / 2 ^ 53"
  proof -
    have "(3 / 2 * x) * (1 - 1 / 2 ^ 53) \<le> y * (1 - 1 / 2 ^ 53)"
      using assms(2) by (intro mult_right_mono) simp_all
    then show ?thesis by (simp add: algebra_simps)
  qed
  also have "\<dots> \<le> float_round y"
    using float_round_error [OF y] by linarith
  finally show ?thesis .
qed

lemma float_round_between:
  assumes "1 \<le> x" and "x \<le> 3 / 2"
  shows "1 \<le> float_round x \<and> float_round x \<le> 3 / 2"
proof -
  have fr: "float_round x = of_int (half_even (x / 2 powi (0 - 52))) * 2 powi (0 - 52)"
    using assms by (intro float_round_binade) simp_all
  define q where "q = x * 2 ^ 52"
  have q: "x / 2 powi (0 - 52) = q" by (simp add: q_def power_int_minus_divide)
  have "of_int (2 ^ 52) \<le> q" using assms(1) by (simp add: q_def)
  then have lo: "2 ^ 52 \<le> half_even q" by (rule half_even_ge)
  have "q \<le> of_int (3 * 2 ^ 51)" using assms(2) by (simp add: q_def)
  then have hi: "half_even q \<le> 3 * 2 ^ 51" by (rule half_even_le)
  have "(2::real) ^ 52 \<le> of_int (half_even q)"
    using lo by (metis of_int_le_iff of_int_numeral of_int_power)
  moreover have "of_int (half_even q) \<le> (3 * 2 ^ 51 :: real)"
    using hi by (metis of_int_le_iff of_int_numeral of_int_power of_int_mult)
  moreover have "float_round x = of_int (half_even q) / 2 ^ 52"
    using fr unfolding q by (simp add: power_int_minus_divide)
  ultimately show ?thesis
    by (simp add: field_simps)
qed

lemma float_round_le_pow2:
  assumes "0 \<le> x" and "x \<le> 2 powi k" and "- 1074 \<le> k"
  shows "float_round x \<le> 2 powi k"
proof (cases "x = 0")
  case True
  then show ?thesis by (simp add: float_round_def)
next
  case False
  with assms(1) have pos: "0 < x" by simp
  define e where "e = max (binade x) (- 1022)"
  define u :: real where "u = 2 powi (e - 52)"
  have u: "0 < u" by (simp add: u_def)
  have "binade x \<le> k" using pos assms(2) by (rule binade_le)
  then have le: "e - 52 \<le> k" using assms(3) by (simp add: e_def)
  define j where "j = nat (k - (e - 52))"
  have j: "int j = k - (e - 52)" using le by (simp add: j_def)
  have "2 powi k / u = (2::real) powi (k - (e - 52))"
    by (simp add: u_def power_int_diff)
  also have "\<dots> = 2 powi (int j)" by (simp only: j)
  also have "\<dots> = of_int (2 ^ j)" by simp
  finally have r: "2 powi k / u = of_int (2 ^ j)" .
  have "x / u \<le> 2 powi k / u" using assms(2) u by (simp add: divide_right_mono)
  then have "x / u \<le> of_int (2 ^ j)" by (simp only: r)
  then have "half_even (x / u) \<le> 2 ^ j" by (rule half_even_le)
  then have "(of_int (half_even (x / u)) :: real) \<le> of_int (2 ^ j)" by (simp only: of_int_le_iff)
  then have "of_int (half_even (x / u)) * u \<le> of_int (2 ^ j) * u"
    using u by (intro mult_right_mono) simp_all
  also have "of_int (2 ^ j) * u = 2 powi k" using u by (simp only: r [symmetric]) simp
  finally have "of_int (half_even (x / u)) * u \<le> 2 powi k" .
  moreover have "float_round x = of_int (half_even (x / u)) * u"
    unfolding u_def e_def by (rule float_round_pos [OF pos])
  ultimately show ?thesis by simp
qed

lemma float_round_ge_pow2:
  assumes "2 powi k \<le> x" and "- 1074 \<le> k"
  shows "2 powi k \<le> float_round x"
proof -
  have pos: "0 < x" using assms(1) by (smt (verit) zero_less_power_int)
  define e where "e = max (binade x) (- 1022)"
  define u :: real where "u = 2 powi (e - 52)"
  have u: "0 < u" by (simp add: u_def)
  have fr: "float_round x = of_int (half_even (x / u)) * u"
    unfolding u_def e_def by (rule float_round_pos [OF pos])
  have kb: "k \<le> binade x" using assms(1) by (rule binade_ge)
  define c where "c = max k (e - 52)"
  have c1: "2 powi c \<le> x"
  proof (cases "k \<le> e - 52")
    case True
    then have "c = e - 52" by (simp add: c_def)
    moreover have "e - 52 \<le> binade x" using kb True assms(2) unfolding e_def by linarith
    then have "(2::real) powi (e - 52) \<le> 2 powi binade x"
      by (intro power_int_increasing) simp_all
    ultimately show ?thesis using binade_bounds [OF pos] by simp
  next
    case False
    then have "c = k" by (simp add: c_def)
    then show ?thesis using assms(1) by simp
  qed
  define j where "j = nat (c - (e - 52))"
  have j: "int j = c - (e - 52)" by (simp add: j_def c_def)
  have "2 powi c / u = (2::real) powi (c - (e - 52))"
    by (simp add: u_def power_int_diff)
  also have "\<dots> = 2 powi (int j)" by (simp only: j)
  also have "\<dots> = of_int (2 ^ j)" by simp
  finally have r: "2 powi c / u = of_int (2 ^ j)" .
  have "2 powi c / u \<le> x / u" using c1 u by (simp add: divide_right_mono)
  then have "of_int (2 ^ j) \<le> x / u" by (simp only: r)
  then have "2 ^ j \<le> half_even (x / u)" by (rule half_even_ge)
  then have "(of_int (2 ^ j) :: real) \<le> of_int (half_even (x / u))" by (simp only: of_int_le_iff)
  then have "of_int (2 ^ j) * u \<le> of_int (half_even (x / u)) * u"
    using u by (intro mult_right_mono) simp_all
  moreover have "of_int (2 ^ j) * u = 2 powi c" using u by (simp only: r [symmetric]) simp
  ultimately have "2 powi c \<le> float_round x" by (simp add: fr)
  moreover have "(2::real) powi k \<le> 2 powi c"
    by (intro power_int_increasing) (simp_all add: c_def)
  ultimately show ?thesis by linarith
qed

section \<open>The backoff policy\<close>

lemma unit_draw_bounds: "0 \<le> unit_draw raw \<and> unit_draw raw < 1"
proof -
  have "raw mod 2 ^ 53 < (2::nat) ^ 53" by simp
  then have "real (raw mod 2 ^ 53) < 2 ^ 53"
    by (metis of_nat_less_iff of_nat_numeral of_nat_power)
  then show ?thesis by (simp add: unit_draw_def)
qed

lemma float_round_half: "float_round (1 / 2) = 1 / 2"
  using float_round_exact [of 1 "- 1"] by (simp add: power_int_minus_divide)

lemma float_round_one: "float_round 1 = 1"
  using float_round_exact [of 1 0] by simp

lemma float_round_half_draw:
  "float_round (1 / 2 * unit_draw raw) = 1 / 2 * unit_draw raw"
proof -
  define k where "k = int (raw mod 2 ^ 53)"
  have "raw mod 2 ^ 53 < (2::nat) ^ 53" by simp
  then have "k < 2 ^ 53"
    unfolding k_def by (metis of_nat_less_iff of_nat_numeral of_nat_power)
  moreover have "0 \<le> k" by (simp add: k_def)
  ultimately have "\<bar>k\<bar> < 2 ^ 53" by simp
  then have ex: "float_round (of_int k * 2 powi (- 54)) = of_int k * 2 powi (- 54)"
    by (rule float_round_exact) simp
  have e: "1 / 2 * unit_draw raw = of_int k * 2 powi (- 54)"
    by (simp add: unit_draw_def k_def power_int_minus_divide)
  show ?thesis by (simp only: e ex)
qed

lemma jitter_bounds: "0 \<le> jitter_of w \<and> jitter_of w < 1 / 2"
  using unit_draw_bounds [of "rnd w (drawn w)"] by (simp add: jitter_of_def)

lemma jitter_of_update [simp]:
  "jitter_of (w\<lparr>sent := s\<rparr>) = jitter_of w"
  "jitter_of (w\<lparr>trace := t\<rparr>) = jitter_of w"
  by (simp_all add: jitter_of_def)

lemma delay_of_update [simp]:
  "delay_of self attempt (w\<lparr>sent := s\<rparr>) = delay_of self attempt w"
  "delay_of self attempt (w\<lparr>trace := t\<rparr>) = delay_of self attempt w"
  by (simp_all add: delay_of_def)

lemma jitter_exact:
  "fst (random_uniform 0 (1 / 2) w) = jitter_of w"
proof -
  have "fst (random_uniform 0 (1 / 2) w) = 1 / 2 * unit_draw (rnd w (drawn w))"
    unfolding random_uniform_def Let_def fst_conv
    by (simp only: diff_zero add_0 float_round_half float_round_half_draw)
  then show ?thesis by (simp add: jitter_of_def)
qed

lemma random_uniform_jitter: "random_uniform 0 (1 / 2) w = (jitter_of w, drew_world w)"
  using jitter_exact [of w] by (simp add: random_uniform_def Let_def drew_world_def)

lemma backoff_base_eq:
  "backoff_base self attempt =
     (if pow_overflows self attempt then Inl OverflowError else Inr (base_of self attempt))"
  by (simp add: backoff_base_def float_pow_def pow_overflows_def base_of_def Let_def)

lemma compute_backoff_eq:
  "compute_backoff self attempt w =
     (if pow_overflows self attempt then (Inl OverflowError, w)
      else (Inr (delay_of self attempt w), drew_world w))"
  by (simp add: compute_backoff_def backoff_base_eq random_uniform_jitter delay_of_def)

lemma time_sleep_eq:
  "time_sleep secs w =
     (case sleep_error secs of
        Some e \<Rightarrow> (Inl e, w)
      | None \<Rightarrow> (Inr (), w\<lparr>trace := trace w @ [Sleep secs]\<rparr>))"
  by (simp add: time_sleep_def sleep_error_def Let_def)

lemma base_of_first: "base_of self 1 = 1"
  by (simp add: base_of_def float_round_one)

lemma no_overflow_first: "\<not> pow_overflows self 1"
  by (simp add: pow_overflows_def base_of_first)

lemma power_le_max:
  fixes x :: real
  assumes "0 \<le> x" and "i \<le> n"
  shows "x ^ i \<le> max 1 (x ^ n)"
proof (cases "x \<le> 1")
  case True
  then have "x ^ i \<le> 1" using assms(1) by (simp add: power_le_one)
  then show ?thesis by simp
next
  case False
  then have "x ^ i \<le> x ^ n" using assms(2) by (intro power_increasing) simp_all
  then show ?thesis by simp
qed

text \<open>
  A factor that is not negative and whose \<open>n\<close>-th power is at most \<open>2^30\<close> keeps the first
  \<open>n + 1\<close> attempts clear of both errors: the power is a double of at most \<open>2^30\<close>, the
  delay is at most \<open>2^31\<close> seconds, and that many nanoseconds are fewer than \<open>2^63\<close>.
\<close>

lemma base_of_bounds:
  assumes "0 \<le> backoff_factor self" and "backoff_factor self ^ n \<le> 2 ^ 30"
    and "attempt \<le> int n + 1"
  shows "0 \<le> base_of self attempt \<and> base_of self attempt \<le> 2 ^ 30"
proof (cases "attempt > 0")
  case False
  then show ?thesis by (simp add: base_of_def)
next
  case True
  define i where "i = nat (attempt - 1)"
  have "i \<le> n" using assms(3) by (simp add: i_def)
  then have "backoff_factor self ^ i \<le> max 1 (backoff_factor self ^ n)"
    using assms(1) by (intro power_le_max)
  also have "\<dots> \<le> 2 ^ 30" using assms(2) by simp
  finally have le: "backoff_factor self ^ i \<le> 2 powi 30" by simp
  have ge: "0 \<le> backoff_factor self ^ i" using assms(1) by simp
  have "float_round (backoff_factor self ^ i) \<le> 2 powi 30"
    using ge le by (rule float_round_le_pow2) simp
  moreover have "0 \<le> float_round (backoff_factor self ^ i)"
    using ge by (rule float_round_nonneg)
  ultimately show ?thesis using True by (simp add: base_of_def i_def)
qed

lemma delay_fits:
  assumes "0 \<le> backoff_factor self" and "backoff_factor self ^ n \<le> 2 ^ 30"
    and "attempt \<le> int n + 1"
  shows "\<not> pow_overflows self attempt \<and> sleep_error (delay_of self attempt w) = None"
proof -
  note b = base_of_bounds [OF assms]
  have "\<bar>base_of self attempt\<bar> \<le> 2 ^ 30" using b by simp
  also have "\<dots> < (2::real) ^ 1024" by (intro power_strict_increasing) simp_all
  finally have no: "\<not> pow_overflows self attempt" by (simp add: pow_overflows_def)
  define s where "s = base_of self attempt + jitter_of w"
  have s0: "0 \<le> s" using b jitter_bounds [of w] by (simp add: s_def)
  have "s \<le> 2 ^ 30 + 1 / 2" using b jitter_bounds [of w] by (simp add: s_def)
  then have s1: "s \<le> 2 powi 31" by simp
  have d0: "0 \<le> float_round s" using s0 by (rule float_round_nonneg)
  have d1: "float_round s \<le> 2 powi 31" using s0 s1 by (rule float_round_le_pow2) simp
  define t where "t = float_round s * 10 ^ 9"
  have t0: "0 \<le> t" using d0 by (simp add: t_def)
  have "t \<le> 2 powi 31 * 10 ^ 9" unfolding t_def using d1 by (intro mult_right_mono) simp_all
  then have t1: "t \<le> 2 powi 61" by simp
  have n0: "0 \<le> float_round t" using t0 by (rule float_round_nonneg)
  have "float_round t \<le> 2 powi 61" using t0 t1 by (rule float_round_le_pow2) simp
  then have n1: "float_round t < 2 ^ 63" by simp
  have "sleep_error (float_round s) = None"
    unfolding sleep_error_def t_def [symmetric] using n0 n1 d0 by simp
  then show ?thesis using no by (simp add: delay_of_def s_def)
qed

lemma top_draw_jitter: "jitter_of top_draw = (2 ^ 53 - 1) / 2 ^ 54"
proof -
  have "((2::nat) ^ 53 - 1) mod 2 ^ 53 = 2 ^ 53 - 1" by simp
  then show ?thesis by (simp add: jitter_of_def top_draw_def unit_draw_def)
qed

lemma float_round_top: "float_round (1 + (2 ^ 53 - 1) / 2 ^ 54) = 3 / 2"
proof -
  have "float_round (1 + (2 ^ 53 - 1) / 2 ^ 54) =
      of_int (half_even ((1 + (2 ^ 53 - 1) / 2 ^ 54) / 2 powi (0 - 52))) * 2 powi (0 - 52)"
    by (intro float_round_binade) simp_all
  moreover have "half_even ((1 + (2 ^ 53 - 1) / 2 ^ 54) / 2 powi (0 - 52)) = 3 * 2 ^ 51"
    by (simp add: half_even_def)
  ultimately show ?thesis by simp
qed

text \<open>
  The powers of 1.5 against the largest double: \<open>1.5^1750\<close> is below eight ninths of
  \<open>2^1024\<close> and \<open>1.5^1751\<close> is above \<open>2^1024\<close>. Both come from small facts, \<open>1.5^306 \<le> 2^179\<close>,
  \<open>1.5^220 \<le> 8/9 * 2^129\<close> and \<open>2^31 \<le> 1.5^53\<close>.
\<close>

lemma pow_1750: "(3 / 2 :: real) ^ 1750 \<le> 8 / 9 * 2 ^ 1024"
proof -
  define r :: real where "r = 3 / 2"
  define P :: real where "P = 2 ^ 179"
  define Q :: real where "Q = 2 ^ 129"
  have a: "r ^ 306 \<le> P" unfolding r_def P_def by (simp add: power_divide divide_le_eq)
  have b: "r ^ 220 \<le> 8 / 9 * Q" unfolding r_def Q_def by (simp add: power_divide divide_le_eq)
  have r0: "0 \<le> r" by (simp add: r_def)
  have P0: "0 \<le> P" by (simp add: P_def)
  have "r ^ (306 * 5 + 220) = (r ^ 306) ^ 5 * r ^ 220"
    by (simp only: power_add power_mult)
  moreover have "(306 * 5 + 220 :: nat) = 1750" by simp
  ultimately have e: "r ^ 1750 = (r ^ 306) ^ 5 * r ^ 220" by (simp only:)
  have "(2::real) ^ (179 * 5 + 129) = (2 ^ 179) ^ 5 * 2 ^ 129"
    by (simp only: power_add power_mult)
  moreover have "(179 * 5 + 129 :: nat) = 1024" by simp
  ultimately have t: "(2::real) ^ 1024 = P ^ 5 * Q" by (simp only: P_def Q_def)
  have "(r ^ 306) ^ 5 \<le> P ^ 5"
    using a r0 by (intro power_mono) simp_all
  then have "(r ^ 306) ^ 5 * r ^ 220 \<le> P ^ 5 * (8 / 9 * Q)"
    using b r0 P0 by (intro mult_mono) simp_all
  then have "r ^ 1750 \<le> 8 / 9 * (P ^ 5 * Q)"
    by (simp only: e mult.left_commute)
  then show ?thesis by (simp only: t r_def)
qed

lemma pow_1751: "2 ^ 1024 \<le> (3 / 2 :: real) ^ 1751"
proof -
  define r :: real where "r = 3 / 2"
  define P :: real where "P = 2 ^ 31"
  have a: "P \<le> r ^ 53" unfolding r_def P_def by (simp add: power_divide le_divide_eq)
  have P0: "0 \<le> P" by (simp add: P_def)
  have "r ^ (53 * 33 + 2) = (r ^ 53) ^ 33 * r ^ 2"
    by (simp only: power_add power_mult)
  moreover have "(53 * 33 + 2 :: nat) = 1751" by simp
  ultimately have e: "r ^ 1751 = (r ^ 53) ^ 33 * r ^ 2" by (simp only:)
  have "(2::real) ^ (31 * 33 + 1) = (2 ^ 31) ^ 33 * 2 ^ 1"
    by (simp only: power_add power_mult)
  moreover have "(31 * 33 + 1 :: nat) = 1024" by simp
  ultimately have t: "(2::real) ^ 1024 = P ^ 33 * 2" by (simp only: P_def power_one_right)
  have p33: "0 \<le> P ^ 33" using P0 by simp
  have r0: "0 \<le> r" by (simp add: r_def)
  have "P ^ 33 \<le> (r ^ 53) ^ 33"
    using a P0 by (intro power_mono) simp_all
  moreover have "(2::real) \<le> r ^ 2" by (simp add: r_def power2_eq_square)
  ultimately have "P ^ 33 * 2 \<le> (r ^ 53) ^ 33 * r ^ 2"
    using p33 r0 by (intro mult_mono) simp_all
  then have "2 ^ 1024 \<le> r ^ 1751" by (simp only: t e)
  then show ?thesis by (simp only: r_def)
qed

lemma base_of_small:
  assumes "backoff_factor self = 3 / 2" and "0 < n" and "n \<le> 1751"
  shows "1 \<le> base_of self n \<and> base_of self n < 2 ^ 1024"
proof -
  define i where "i = nat (n - 1)"
  define x :: real where "x = (3 / 2) ^ i"
  define T :: real where "T = 2 ^ 1024"
  have T0: "0 < T" by (simp add: T_def)
  have "i \<le> 1750" using assms(3) by (simp add: i_def)
  then have "x \<le> (3 / 2) ^ 1750" unfolding x_def by (intro power_increasing) simp_all
  also have "\<dots> \<le> 8 / 9 * T" unfolding T_def by (rule pow_1750)
  finally have le: "x \<le> 8 / 9 * T" .
  have x1: "1 \<le> x" unfolding x_def by (intro one_le_power) simp
  have "float_round x \<le> x + x / 2 ^ 53"
    using float_round_error [OF x1] by linarith
  also have "\<dots> \<le> x + x / 16" using x1 by (simp add: field_simps)
  also have "\<dots> < T" using le T0 by simp
  finally have hi: "float_round x < T" .
  have "2 powi 0 \<le> x" using x1 by simp
  then have "2 powi 0 \<le> float_round x" by (rule float_round_ge_pow2) simp
  then have lo: "1 \<le> float_round x" by simp
  have "base_of self n = float_round x"
    unfolding base_of_def x_def i_def assms(1) using assms(2) by simp
  then show ?thesis using lo hi by (simp only: T_def)
qed

lemma base_of_large:
  assumes "backoff_factor self = 3 / 2" and "1751 < n"
  shows "2 ^ 1024 \<le> base_of self n"
proof -
  define i where "i = nat (n - 1)"
  define x :: real where "x = (3 / 2) ^ i"
  have "1751 \<le> i" using assms(2) by (simp add: i_def)
  then have "(3 / 2) ^ 1751 \<le> x" unfolding x_def by (intro power_increasing) simp_all
  with pow_1751 have "2 ^ 1024 \<le> x" by (rule order_trans)
  then have "2 powi 1024 \<le> x" by (simp only: power_int_numeral)
  then have "2 powi 1024 \<le> float_round x" by (rule float_round_ge_pow2) simp
  then have "2 ^ 1024 \<le> float_round x" by (simp only: power_int_numeral)
  moreover have "0 < n" using assms(2) by simp
  then have "base_of self n = float_round x"
    unfolding base_of_def x_def i_def assms(1) by simp
  ultimately show ?thesis by (simp only:)
qed

text \<open>
  With the factor 1.5 and the largest draw, \<open>random.uniform(0, 0.5)\<close> is \<open>0.5 - 2^-54\<close>,
  and the float sum \<open>1.0 + jitter\<close> rounds up to 1.5: the delay of attempt 1 is not below
  1.5. And at attempt 1752 the jitter-free component does not exist: \<open>1.5 ** 1751\<close> raises
  \<open>OverflowError\<close>.
\<close>

theorem compute_backoff_upper_counterexample:
  "fst (compute_backoff default_handler 1 top_draw) = Inr (3 / 2) \<and>
   backoff_base default_handler 1752 = Inl OverflowError"
proof -
  have bf: "backoff_factor default_handler = 3 / 2" by (simp add: default_handler_def)
  have "fst (compute_backoff default_handler 1 top_draw) = Inr (3 / 2)"
    by (simp add: compute_backoff_eq no_overflow_first delay_of_def base_of_first
        top_draw_jitter float_round_top [simplified])
  moreover have "2 ^ 1024 \<le> \<bar>base_of default_handler 1752\<bar>"
    using base_of_large [OF bf, of 1752] by linarith
  then have "pow_overflows default_handler 1752" by (simp only: pow_overflows_def) simp
  then have "backoff_base default_handler 1752 = Inl OverflowError"
    by (simp only: backoff_base_eq if_True)
  ultimately show ?thesis by (rule conjI)
qed

text \<open>
  Claim C5, as the code has it. With a backoff factor of 1.5 the delay computed for
  attempt 1 lies in \<open>[1, 1.5]\<close> whatever the random draw (the upper end is reached by
  rounding). The jitter-free component \<open>backoff_factor ** (attempt - 1)\<close> exists for the
  attempts 1 to 1751 and is strictly smaller at \<open>m\<close> than at \<open>n\<close> for \<open>m < n\<close> among them;
  from attempt 1752 on the power raises \<open>OverflowError\<close>.
\<close>

theorem compute_backoff_bounds:
  "backoff_factor self = 3 / 2 \<Longrightarrow>
     (\<exists>d. fst (compute_backoff self 1 w) = Inr d \<and> 1 \<le> d \<and> d \<le> 3 / 2) \<and>
     (\<forall>m n. 0 < m \<and> m < n \<and> n \<le> 1751 \<longrightarrow>
        (\<exists>bm bn. backoff_base self m = Inr bm \<and> backoff_base self n = Inr bn \<and> bm < bn)) \<and>
     (\<forall>n. 1751 < n \<longrightarrow> backoff_base self n = Inl OverflowError)"
proof -
  assume bf: "backoff_factor self = 3 / 2"
  have "1 \<le> 1 + jitter_of w" "1 + jitter_of w \<le> 3 / 2"
    using jitter_bounds [of w] by simp_all
  then have "1 \<le> delay_of self 1 w \<and> delay_of self 1 w \<le> 3 / 2"
    using float_round_between [of "1 + jitter_of w"]
    by (simp add: delay_of_def base_of_first)
  moreover have "fst (compute_backoff self 1 w) = Inr (delay_of self 1 w)"
    by (simp add: compute_backoff_eq no_overflow_first)
  ultimately have a: "\<exists>d. fst (compute_backoff self 1 w) = Inr d \<and> 1 \<le> d \<and> d \<le> 3 / 2"
    by blast
  have ok: "backoff_base self n = Inr (base_of self n)" if "0 < n" "n \<le> 1751" for n
  proof -
    from base_of_small [OF bf that] have "\<bar>base_of self n\<bar> < 2 ^ 1024" by linarith
    then have "\<not> pow_overflows self n" by (simp only: pow_overflows_def) simp
    then show ?thesis by (simp only: backoff_base_eq if_False)
  qed
  have lt: "base_of self m < base_of self n" if "0 < m" "m < n" for m n
  proof -
    define i where "i = nat (m - 1)"
    define d where "d = nat (n - 1) - Suc i"
    have n: "nat (n - 1) = Suc i + d" using that by (simp add: i_def d_def)
    have "(3 / 2 :: real) ^ 1 \<le> (3 / 2) ^ Suc d"
      by (intro power_increasing) simp_all
    then have "3 / 2 * (3 / 2 :: real) ^ i \<le> (3 / 2) ^ Suc d * (3 / 2) ^ i"
      by (intro mult_right_mono) simp_all
    also have "\<dots> = (3 / 2) ^ (Suc i + d)"
      by (simp add: power_add)
    finally have "float_round ((3 / 2) ^ i) < float_round ((3 / 2) ^ (Suc i + d))"
      by (intro float_round_separated one_le_power) simp_all
    then show ?thesis using that by (simp add: base_of_def bf i_def [symmetric] n)
  qed
  have b: "\<exists>bm bn. backoff_base self m = Inr bm \<and> backoff_base self n = Inr bn \<and> bm < bn"
    if "0 < m \<and> m < n \<and> n \<le> 1751" for m n
  proof -
    from that have "0 < m" "m \<le> 1751" "0 < n" "n \<le> 1751" "m < n" by simp_all
    then show ?thesis using ok [of m] ok [of n] lt [of m n] by blast
  qed
  have c: "backoff_base self n = Inl OverflowError" if "1751 < n" for n
  proof -
    from base_of_large [OF bf that] have "2 ^ 1024 \<le> \<bar>base_of self n\<bar>" by linarith
    moreover have "0 < n" using that by simp
    ultimately have "pow_overflows self n" by (simp only: pow_overflows_def)
    then show ?thesis by (simp only: backoff_base_eq if_True)
  qed
  from a b c show ?thesis by blast
qed

theorem compute_backoff_bounds_witness:
  "(\<exists>d. fst (compute_backoff default_handler 1 (scripted [])) = Inr d \<and> 1 \<le> d \<and> d \<le> 3 / 2) \<and>
   (\<exists>bm bn. backoff_base default_handler 1 = Inr bm \<and>
             backoff_base default_handler 1751 = Inr bn \<and> bm < bn) \<and>
   backoff_base default_handler 1753 = Inl OverflowError"
proof -
  have bf: "backoff_factor default_handler = 3 / 2"
    by (simp add: default_handler_def)
  have "(0::int) < 1 \<and> (1::int) < 1751 \<and> (1751::int) \<le> 1751" "(1751::int) < 1753" by simp_all
  with compute_backoff_bounds [OF bf, of "scripted []"] show ?thesis by blast
qed

section \<open>The block-recovery loop\<close>

lemma retry_loop_unfold:
  assumes "attempt < max_retries self"
  shows "retry_loop self url attempt lh w =
     (if pow_overflows self (attempt + 1) then (Inl OverflowError, w)
      else
        (case sleep_error (delay_of self (attempt + 1) w) of
           Some e \<Rightarrow> (Inl e, drew_world w)
         | None \<Rightarrow>
            (case net w (sent w) of
               Raises e \<Rightarrow>
                 (if e = Timeout \<or> e = ConnectionError
                  then retry_loop self url (attempt + 1) lh (attempt_world self url attempt w)
                  else (Inl e, attempt_world self url attempt w))
             | Response body ok \<Rightarrow>
                 (if \<not> is_soft_blocked body then (Inr body, attempt_world self url attempt w)
                  else retry_loop self url (attempt + 1) body (attempt_world self url attempt w)))))"
  apply (subst retry_loop.simps)
  apply (simp add: assms compute_backoff_eq time_sleep_eq drew_world_def random_randint_def
      session_get_def attempt_world_def Let_def split: reply.splits option.splits)
  done

lemma retry_loop_step:
  assumes "attempt < max_retries self"
    and "\<not> pow_overflows self (attempt + 1) \<and> sleep_error (delay_of self (attempt + 1) w) = None"
  shows "retry_loop self url attempt lh w =
     (case net w (sent w) of
        Raises e \<Rightarrow>
          (if e = Timeout \<or> e = ConnectionError
           then retry_loop self url (attempt + 1) lh (attempt_world self url attempt w)
           else (Inl e, attempt_world self url attempt w))
      | Response body ok \<Rightarrow>
          (if \<not> is_soft_blocked body then (Inr body, attempt_world self url attempt w)
           else retry_loop self url (attempt + 1) body (attempt_world self url attempt w)))"
  using assms(2) by (simp add: retry_loop_unfold [OF assms(1)])

lemma retry_loop_stop:
  "\<not> attempt < max_retries self \<Longrightarrow> retry_loop self url attempt lh w = (Inl unresolved, w)"
  by (subst retry_loop.simps) simp

lemma attempt_world_simps [simp]:
  "net (attempt_world self url attempt w) = net w"
  "rnd (attempt_world self url attempt w) = rnd w"
  "sent (attempt_world self url attempt w) = sent w + 1"
  "drawn (attempt_world self url attempt w) = drawn w + 2"
  by (simp_all add: attempt_world_def Let_def)

lemma drew_world_simps [simp]:
  "net (drew_world w) = net w"
  "rnd (drew_world w) = rnd w"
  "sent (drew_world w) = sent w"
  "drawn (drew_world w) = drawn w + 1"
  "trace (drew_world w) = trace w @ [Uniform (jitter_of w)]"
  by (simp_all add: drew_world_def)



lemma retry_loop_last_html:
  "retry_loop self url attempt lh w = retry_loop self url attempt lh' w"
proof (induction "nat (max_retries self - attempt)" arbitrary: attempt lh lh' w)
  case 0
  then have "\<not> attempt < max_retries self" by simp
  then show ?case by (simp add: retry_loop_stop)
next
  case (Suc k)
  then have lt: "attempt < max_retries self" by simp
  have k: "k = nat (max_retries self - (attempt + 1))" using Suc.hyps(2) by simp
  note ih = Suc.hyps(1) [OF k]
  show ?case
    using ih by (simp add: retry_loop_unfold [OF lt] split: reply.splits option.splits)
qed

lemma retry_loop_sent_mono:
  "sent w \<le> sent (snd (retry_loop self url attempt lh w))"
proof (induction "nat (max_retries self - attempt)" arbitrary: attempt lh w)
  case 0
  then have "\<not> attempt < max_retries self" by simp
  then show ?case by (simp add: retry_loop_stop)
next
  case (Suc k)
  then have lt: "attempt < max_retries self" by simp
  have k: "k = nat (max_retries self - (attempt + 1))" using Suc.hyps(2) by simp
  have ih: "sent w \<le> sent (snd (retry_loop self url (attempt + 1) lh'
                (attempt_world self url attempt w)))" for lh'
    using Suc.hyps(1) [OF k, where w = "attempt_world self url attempt w" and lh = lh']
    by simp
  show ?case
    using ih by (simp add: retry_loop_unfold [OF lt] split: reply.splits option.splits)
qed

lemma blocked_page_blocked: "is_soft_blocked blocked_page"
  by code_simp

lemma plain_page_not_blocked: "\<not> is_soft_blocked plain_page"
  by code_simp

lemma scripted_simps [simp]:
  "sent (scripted rs) = 0" "drawn (scripted rs) = 0" "trace (scripted rs) = []"
  "rnd (scripted rs) k = k * 2 ^ 51"
  "net (scripted rs) k = (if k < length rs then rs ! k else Raises ConnectionError)"
  by (simp_all add: scripted_def)

lemma unit_draw_quarter [simp]: "unit_draw 2251799813685248 = 1 / 4"
  by (simp add: unit_draw_def)






text \<open>
  The bound on the factor is needed. With the factor \<open>1e10\<close> and a ceiling of 2, the first
  attempt meets a blocked body and the second would meet one that is not blocked; but the
  second delay is \<open>1e10 + 0.25\<close> seconds, \<open>time.sleep\<close> raises \<open>OverflowError\<close>, and the
  procedure ends there, after one request.
\<close>

lemma steep_factor_overflows:
  "fst (handle_soft_block steep_handler ''u'' None
          (scripted [Response blocked_page True, Response plain_page True])) = Inl OverflowError \<and>
   sent (snd (handle_soft_block steep_handler ''u'' None
          (scripted [Response blocked_page True, Response plain_page True]))) = 1"
proof -
  let ?w = "scripted [Response blocked_page True, Response plain_page True]"
  let ?wa = "attempt_world steep_handler ''u'' 0 ?w"
  have lt0: "0 < max_retries steep_handler" and lt1: "1 < max_retries steep_handler"
    by (simp_all add: steep_handler_def)
  have "0 \<le> backoff_factor steep_handler" "backoff_factor steep_handler ^ 0 \<le> 2 ^ 30"
       "0 + 1 \<le> int 0 + 1"
    by (simp_all add: steep_handler_def)
  note fits = delay_fits [OF this]
  have 1: "retry_loop steep_handler ''u'' 0 [] ?w =
      retry_loop steep_handler ''u'' 1 blocked_page ?wa"
    by (simp add: retry_loop_step [OF lt0 fits] blocked_page_blocked)
  have b: "base_of steep_handler 2 = 10000000000"
    using float_round_exact [of 10000000000 0]
    by (simp add: base_of_def steep_handler_def)
  have "\<bar>base_of steep_handler 2\<bar> < 2 ^ 34" by (simp add: b)
  also have "\<dots> < (2::real) ^ 1024" by (intro power_strict_increasing) simp_all
  finally have no: "\<not> pow_overflows steep_handler 2"
    by (simp add: pow_overflows_def)
  have j: "jitter_of ?wa = 1 / 4"
    by (simp add: jitter_of_def unit_draw_def)
  have d: "delay_of steep_handler 2 ?wa = 40000000001 / 4"
    using float_round_exact [of 40000000001 "- 2"]
    by (simp add: delay_of_def b j power_int_minus_divide)
  have "2 powi 63 \<le> (40000000001 / 4 * 10 ^ 9 :: real)" by simp
  then have "2 powi 63 \<le> float_round (40000000001 / 4 * 10 ^ 9)"
    by (rule float_round_ge_pow2) simp
  then have s: "sleep_error (delay_of steep_handler 2 ?wa) = Some OverflowError"
    unfolding d sleep_error_def by simp
  have 2: "retry_loop steep_handler ''u'' 1 blocked_page ?wa =
      (Inl OverflowError, drew_world ?wa)"
    by (simp add: retry_loop_unfold [OF lt1] no s)
  show ?thesis
    by (simp add: handle_soft_block_def or_empty_def 1 2)
qed

text \<open>
  Claim C10. With no markup handed in, the short-circuit is not taken: the procedure is
  its retry loop started at attempt 0, it behaves exactly as it does on blocked markup,
  and with a positive ceiling it sends at least one request. (With a ceiling of zero or
  less the loop body never runs and the procedure fails at once.)
\<close>

theorem handle_soft_block_absent:
  "handle_soft_block self url None w = retry_loop self url 0 '''' w \<and>
   (is_soft_blocked h \<longrightarrow>
      handle_soft_block self url None w = handle_soft_block self url (Some h) w) \<and>
   (0 < max_retries self \<and> 0 \<le> backoff_factor self \<longrightarrow>
      sent w < sent (snd (handle_soft_block self url None w))) \<and>
   (max_retries self \<le> 0 \<longrightarrow> handle_soft_block self url None w = (Inl unresolved, w))"
proof (intro conjI impI)
  show eq: "handle_soft_block self url None w = retry_loop self url 0 '''' w"
    by (simp add: handle_soft_block_def or_empty_def)
  show "handle_soft_block self url None w = handle_soft_block self url (Some h) w"
    if "is_soft_blocked h"
    using that retry_loop_last_html [of self url 0 "''''" w h]
    by (simp add: handle_soft_block_def or_empty_def)
  show "sent w < sent (snd (handle_soft_block self url None w))"
    if a: "0 < max_retries self \<and> 0 \<le> backoff_factor self"
  proof -
    from a have lt: "0 < max_retries self" and bf: "0 \<le> backoff_factor self" by simp_all
    have "backoff_factor self ^ 0 \<le> 2 ^ 30" "0 + 1 \<le> int 0 + 1" by simp_all
    note fits = delay_fits [OF bf this]
    have "sent (attempt_world self url 0 w)
            \<le> sent (snd (retry_loop self url (0 + 1) lh (attempt_world self url 0 w)))" for lh
      by (rule retry_loop_sent_mono)
    then have "sent w < sent (snd (retry_loop self url 0 '''' w))"
      by (auto simp: retry_loop_step [OF lt fits] Suc_le_eq split: reply.splits)
    with eq show ?thesis by simp
  qed
  show "handle_soft_block self url None w = (Inl unresolved, w)" if "max_retries self \<le> 0"
    using that eq by (simp add: retry_loop_stop)
qed

theorem handle_soft_block_absent_witness:
  "handle_soft_block default_handler ''u'' None (scripted []) =
     handle_soft_block default_handler ''u'' (Some blocked_page) (scripted []) \<and>
   sent (scripted []) < sent (snd (handle_soft_block default_handler ''u'' None (scripted []))) \<and>
   handle_soft_block (default_handler\<lparr>max_retries := 0\<rparr>) ''u'' None (scripted []) =
     (Inl unresolved, scripted [])"
proof -
  have a: "is_soft_blocked blocked_page" by (rule blocked_page_blocked)
  have b: "0 < max_retries default_handler \<and> 0 \<le> backoff_factor default_handler"
    by (simp add: default_handler_def)
  have c: "max_retries (default_handler\<lparr>max_retries := 0\<rparr>) \<le> 0" by simp
  note t = handle_soft_block_absent [of default_handler "''u''" "scripted []" blocked_page]
  note t0 = handle_soft_block_absent
    [of "default_handler\<lparr>max_retries := 0\<rparr>" "''u''" "scripted []" blocked_page]
  from t a have 1: "handle_soft_block default_handler ''u'' None (scripted []) =
     handle_soft_block default_handler ''u'' (Some blocked_page) (scripted [])" by blast
  from t b have 2: "sent (scripted []) <
     sent (snd (handle_soft_block default_handler ''u'' None (scripted [])))" by blast
  from t0 c have 3: "handle_soft_block (default_handler\<lparr>max_retries := 0\<rparr>) ''u'' None (scripted []) =
     (Inl unresolved, scripted [])" by blast
  from 1 2 3 show ?thesis by blast
qed

section \<open>The target locator\<close>

lemma always_safe_digit: "d < 10 \<Longrightarrow> always_safe (digit_char d)"
  by (simp add: always_safe_def digit_char_def Let_def)

lemma str_nat_safe: "list_all always_safe (str_nat n)"
proof (induction n rule: str_nat.induct)
  case (1 n)
  show ?case
  proof (cases "n < 10")
    case True
    then show ?thesis by (subst str_nat.simps) (simp add: always_safe_digit)
  next
    case False
    with 1 show ?thesis by (subst str_nat.simps) (simp add: always_safe_digit)
  qed
qed

lemma str_int_safe: "list_all always_safe (str_int i)"
  by (simp add: str_int_def str_nat_safe always_safe_def)

lemma quote_plus_safe: "list_all always_safe s \<Longrightarrow> quote_plus s = s"
  by (induction s) (simp_all add: quote_plus_def quote_plus_char_def)

lemma quote_plus_keys:
  "quote_plus ''q'' = ''q''" "quote_plus ''mkt'' = ''mkt''" "quote_plus ''setLang'' = ''setLang''"
  "quote_plus ''count'' = ''count''" "quote_plus ''first'' = ''first''"
  by (simp_all add: quote_plus_safe always_safe_def)

text \<open>
  Claim C8. The target locator is the base address followed by \<open>?q=\<close>, \<open>&mkt=\<close>,
  \<open>&setLang=\<close>, \<open>&count=\<close> and \<open>&first=\<close> with, in this order, the query-encoded term,
  market code and language code, the decimal results-per-page and the decimal offset
  \<open>(page - 1) * resultsPerPage + 1\<close> (query-encoding leaves a decimal numeral as it is).
\<close>

theorem build_search_url_exact:
  "build_search_url term page rp mkt lang =
     BASE_URL @ ''?q='' @ quote_plus term @
     ''&mkt='' @ quote_plus mkt @
     ''&setLang='' @ quote_plus lang @
     ''&count='' @ str_int rp @
     ''&first='' @ str_int ((page - 1) * rp + 1)"
  by (simp add: build_search_url_def urlencode_def Let_def quote_plus_keys
      quote_plus_safe [OF str_int_safe])

lemma build_search_url_example:
  "build_search_url ''cat food & co'' 2 10 ''en-US'' ''en'' =
     ''https://www.bing.com/search?q=cat+food+%26+co&mkt=en-US&setLang=en&count=10&first=11''"
  by code_simp

section \<open>The record extractor\<close>


lemma sample_total: "extract_results_total sample_lib sample_page = Inr (Some 1234)"
  by code_simp

lemma sample_first:
  "hd (extract_organic_results sample_lib sample_page) =
     \<lparr>o_iconUrl = None, o_displayedUrl = ''https://example.com'', o_title = ''First'',
      o_url = ''https://example.com'', o_description = [], o_emphasizedKeywords = [],
      o_type = ''organic'', o_position = 1\<rparr>"
  by code_simp

lemma odd_count_raises:
  "results_total_try odd_count_lib odd_count_page = Inl ValueError"
  by code_simp

lemma odd_count_lists:
  "extract_organic_results odd_count_lib odd_count_page =
     [\<lparr>o_iconUrl = None, o_displayedUrl = ''https://example.com'', o_title = ''First'',
       o_url = ''https://example.com'', o_description = [], o_emphasizedKeywords = [],
       o_type = ''organic'', o_position = 1\<rparr>]"
  by code_simp





lemma extract_results_total_Inr:
  "extract_results_total L soup =
     Inr (case results_total_try L soup of Inl exc \<Rightarrow> None | Inr v \<Rightarrow> v)"
  by (simp add: extract_results_total_def split: sum.splits)

lemma parse_page_eq:
  "parse_page L self html meta =
     (case bs_parse_error L html of
        Some e \<Rightarrow> Inl e
      | None \<Rightarrow>
          (case list_errors L (bs_parse L html) of
             e # es \<Rightarrow> Inl e
           | [] \<Rightarrow>
               Inr \<lparr>searchQuery = meta,
                    htmlText = (if include_html self then Some html else None),
                    htmlSnapshotUrl = (),
                    resultsTotal =
                      (case results_total_try L (bs_parse L html) of
                         Inl exc \<Rightarrow> None
                       | Inr v \<Rightarrow> v),
                    organicResults = extract_organic_results L (bs_parse L html),
                    paidResults = extract_paid_results L (bs_parse L html),
                    peopleAlsoAsk = extract_people_also_ask L (bs_parse L html),
                    relatedQueries = extract_related_queries L (bs_parse L html)\<rparr>))"
  by (simp add: parse_page_def Let_def extract_results_total_Inr list_errors_def
      List.map_filter_simps call_extract_organic_results_def call_extract_paid_results_def
      call_extract_people_also_ask_def call_extract_related_queries_def
      split: option.splits)

text \<open>
  The \<open>select\<close> of the organic extraction raises on the sample page: nothing catches it,
  \<open>parse_page\<close> raises the same exception and no record is produced, although the results
  total and the paid items of that page can be extracted.
\<close>

theorem parse_page_organic_failure_counterexample:
  "parse_page organic_fault_lib default_scraper ''markup'' cats_meta =
     Inl (RuntimeError ''select'') \<and>
   extract_results_total organic_fault_lib sample_page = Inr (Some 1234) \<and>
   map p_position (extract_paid_results organic_fault_lib sample_page) = [1]"
  by code_simp

text \<open>
  Claim C6, as the code has it. Only the results-total extraction has a handler. When the
  parser and the \<open>select\<close> calls of the four list extractions return, \<open>parse_page\<close> returns
  a record, whatever happens inside the results-total extraction: if its body raises,
  \<open>resultsTotal\<close> is absent and the four lists are what their extractions give. An
  exception of the parser, or of one of the four list extractions, is not caught: it
  leaves \<open>parse_page\<close>, the first one in the order of the calls, and there is no record.
\<close>

theorem parse_page_catches_total_only:
  "(bs_parse_error L html = None \<and> list_errors L (bs_parse L html) = [] \<longrightarrow>
      (\<exists>r. parse_page L self html meta = Inr r \<and>
            searchQuery r = meta \<and>
            resultsTotal r =
              (case results_total_try L (bs_parse L html) of Inl exc \<Rightarrow> None | Inr v \<Rightarrow> v) \<and>
            organicResults r = extract_organic_results L (bs_parse L html) \<and>
            paidResults r = extract_paid_results L (bs_parse L html) \<and>
            peopleAlsoAsk r = extract_people_also_ask L (bs_parse L html) \<and>
            relatedQueries r = extract_related_queries L (bs_parse L html))) \<and>
   (bs_parse_error L html = None \<and> list_errors L (bs_parse L html) = e # es \<longrightarrow>
      parse_page L self html meta = Inl e) \<and>
   (bs_parse_error L html = Some e \<longrightarrow> parse_page L self html meta = Inl e)"
  by (simp add: parse_page_eq)

text \<open>
  On the page whose count reads \<open>1\<close>, superscript two, \<open>results\<close>, both characters pass
  \<open>isdigit\<close> and \<open>int\<close> raises: the record is produced all the same, without a results
  total and with its organic item. When the \<open>select\<close> calls of the paid and of the related
  extraction raise, \<open>parse_page\<close> raises what the paid one raised; when the parser raises,
  \<open>parse_page\<close> raises that.
\<close>

theorem parse_page_catches_total_only_witness:
  "(\<exists>r. parse_page odd_count_lib default_scraper ''markup'' cats_meta = Inr r \<and>
        resultsTotal r = None \<and>
        map o_position (organicResults r) = [1]) \<and>
   parse_page paid_fault_lib default_scraper ''markup'' cats_meta = Inl (RuntimeError ''paid'') \<and>
   parse_page parser_fault_lib default_scraper ''markup'' cats_meta = Inl (RuntimeError ''parse'')"
proof -
  have p: "bs_parse odd_count_lib ''markup'' = odd_count_page"
    by (simp add: odd_count_lib_def dom_lib_def)
  have a: "bs_parse_error odd_count_lib ''markup'' = None \<and>
      list_errors odd_count_lib (bs_parse odd_count_lib ''markup'') = []"
    by code_simp
  have b: "bs_parse_error paid_fault_lib ''markup'' = None \<and>
      list_errors paid_fault_lib (bs_parse paid_fault_lib ''markup'') =
        RuntimeError ''paid'' # [RuntimeError ''related'']"
    by code_simp
  have c: "bs_parse_error parser_fault_lib ''markup'' = Some (RuntimeError ''parse'')"
    by code_simp
  from a parse_page_catches_total_only
    [where L = odd_count_lib and html = "''markup''" and self = default_scraper
       and meta = cats_meta]
  have 1: "\<exists>r. parse_page odd_count_lib default_scraper ''markup'' cats_meta = Inr r \<and>
        resultsTotal r = None \<and> map o_position (organicResults r) = [1]"
    unfolding p odd_count_raises odd_count_lists by auto
  from b parse_page_catches_total_only
    [where L = paid_fault_lib and html = "''markup''" and self = default_scraper
       and meta = cats_meta and e = "RuntimeError ''paid''"
       and es = "[RuntimeError ''related'']"]
  have 2: "parse_page paid_fault_lib default_scraper ''markup'' cats_meta =
      Inl (RuntimeError ''paid'')"
    by blast
  from c parse_page_catches_total_only
    [where L = parser_fault_lib and html = "''markup''" and self = default_scraper
       and meta = cats_meta and e = "RuntimeError ''parse''"]
  have 3: "parse_page parser_fault_lib default_scraper ''markup'' cats_meta =
      Inl (RuntimeError ''parse'')"
    by blast
  from 1 2 3 show ?thesis by blast
qed

text \<open>A \<open>select_one\<close> that raises inside the results-total extraction is caught like a
  raising \<open>int\<close>: the record is there, without a results total.\<close>

lemma total_select_failure_caught:
  "map_sum id resultsTotal (parse_page total_fault_lib default_scraper ''markup'' cats_meta) =
     Inr None \<and>
   map_sum id (map o_position \<circ> organicResults)
     (parse_page total_fault_lib default_scraper ''markup'' cats_meta) = Inr [1, 2]"
  by code_simp

section \<open>The page fetcher\<close>

lemma is_recovery_headers [simp]: "is_recovery (recovery_headers v)"
  by (simp add: is_recovery_def recovery_headers_def)

lemma recovery_same: "recovery_event e \<Longrightarrow> same_ua_event ua e"
  by (cases e) simp_all

lemma same_ua_recovery: "list_all recovery_event evs \<Longrightarrow> list_all (same_ua_event ua) evs"
  by (induction evs) (simp_all add: recovery_same)

lemma attempt_world_trace:
  "\<exists>evs. trace (attempt_world self url attempt w) = trace w @ evs \<and> list_all recovery_event evs"
  by (simp add: attempt_world_def Let_def)

lemma retry_loop_trace:
  "\<exists>evs. trace (snd (retry_loop self url attempt lh w)) = trace w @ evs \<and>
         list_all recovery_event evs"
proof (induction "nat (max_retries self - attempt)" arbitrary: attempt lh w)
  case 0
  then have "\<not> attempt < max_retries self" by simp
  then show ?case by (simp add: retry_loop_stop)
next
  case (Suc k)
  then have lt: "attempt < max_retries self" by simp
  have k: "k = nat (max_retries self - (attempt + 1))" using Suc.hyps(2) by simp
  let ?w = "attempt_world self url attempt w"
  obtain evs0 where e0: "trace ?w = trace w @ evs0" "list_all recovery_event evs0"
    using attempt_world_trace by blast
  have rec: "\<exists>evs. trace (snd (retry_loop self url (attempt + 1) lh' ?w)) = trace w @ evs \<and>
         list_all recovery_event evs" for lh'
  proof -
    obtain evs1 where "trace (snd (retry_loop self url (attempt + 1) lh' ?w)) = trace ?w @ evs1"
      "list_all recovery_event evs1"
      using Suc.hyps(1) [OF k] by blast
    with e0 have "trace (snd (retry_loop self url (attempt + 1) lh' ?w)) = trace w @ (evs0 @ evs1)
      \<and> list_all recovery_event (evs0 @ evs1)" by simp
    then show ?thesis by blast
  qed
  have stop: "\<exists>evs. trace ?w = trace w @ evs \<and> list_all recovery_event evs"
    using e0 by blast
  have none: "\<exists>evs. trace w = trace w @ evs \<and> list_all recovery_event evs"
    by simp
  have drew: "\<exists>evs. trace (drew_world w) = trace w @ evs \<and> list_all recovery_event evs"
    by simp
  show ?case
    using rec stop none drew
    by (simp add: retry_loop_unfold [OF lt] split: reply.splits option.splits)
qed

lemma handle_soft_block_trace:
  "\<exists>evs. trace (snd (handle_soft_block self url original_html w)) = trace w @ evs \<and>
         list_all recovery_event evs"
  using retry_loop_trace [of self url 0 "or_empty original_html" w]
  by (auto simp: handle_soft_block_def split: option.splits)

lemma jitter_of_sent_world [simp]: "jitter_of (sent_world self url headers w) = jitter_of w"
  by (simp add: jitter_of_def sent_world_def)

lemma delay_of_sent_world [simp]:
  "delay_of h attempt (sent_world self url headers w) = delay_of h attempt w"
  by (simp add: delay_of_def)

lemma fetch_loop_unfold:
  "fetch_loop self url headers attempt w =
     (case net w (sent w) of
        Raises exc \<Rightarrow>
          (if exc = Timeout \<or> exc = ConnectionError then
             (if attempt + 1 \<ge> max_retries (softblock self)
              then (Inl exc, sent_world self url headers w)
              else if pow_overflows (softblock self) (attempt + 1)
              then (Inl OverflowError, sent_world self url headers w)
              else
                (case sleep_error (delay_of (softblock self) (attempt + 1) w) of
                   Some e \<Rightarrow> (Inl e, drew_world (sent_world self url headers w))
                 | None \<Rightarrow>
                     fetch_loop self url headers (attempt + 1)
                       (retry_world self url headers attempt w)))
           else (Inl exc, sent_world self url headers w))
      | Response body ok \<Rightarrow>
          (if is_soft_blocked body
           then handle_soft_block (softblock self) url (Some body) (sent_world self url headers w)
           else (Inr body, sent_world self url headers w)))"
  apply (subst fetch_loop.simps)
  apply (simp add: session_get_def compute_backoff_eq time_sleep_eq drew_world_def
      sent_world_def retry_world_def split: reply.splits option.splits)
  done

lemma fetch_loop_step:
  assumes "0 \<le> backoff_factor (softblock self)"
    and "backoff_factor (softblock self) ^ nat (max_retries (softblock self) - 1) \<le> 2 ^ 30"
  shows "fetch_loop self url headers attempt w =
     (case net w (sent w) of
        Raises exc \<Rightarrow>
          (if exc = Timeout \<or> exc = ConnectionError then
             (if attempt + 1 \<ge> max_retries (softblock self)
              then (Inl exc, sent_world self url headers w)
              else fetch_loop self url headers (attempt + 1)
                     (retry_world self url headers attempt w))
           else (Inl exc, sent_world self url headers w))
      | Response body ok \<Rightarrow>
          (if is_soft_blocked body
           then handle_soft_block (softblock self) url (Some body) (sent_world self url headers w)
           else (Inr body, sent_world self url headers w)))"
proof (cases "attempt + 1 \<ge> max_retries (softblock self)")
  case True
  then show ?thesis
    by (subst fetch_loop_unfold) (simp split: reply.splits)
next
  case False
  then have "attempt + 1 \<le> int (nat (max_retries (softblock self) - 1)) + 1" by simp
  note fits = delay_fits [OF assms this, of w]
  show ?thesis
    by (subst fetch_loop_unfold) (simp add: fits split: reply.splits)
qed

lemma fetch_loop_trace:
  "\<exists>evs. trace (snd (fetch_loop self url [(''User-Agent'', ua)] attempt w)) = trace w @ evs \<and>
         list_all (same_ua_event ua) evs"
proof (induction "nat (max_retries (softblock self) - attempt)" arbitrary: attempt w rule: less_induct)
  case less
  let ?hs = "[(''User-Agent'', ua)]"
  let ?w = "sent_world self url ?hs w"
  let ?P = "\<lambda>w'. \<exists>evs. trace w' = trace w @ evs \<and> list_all (same_ua_event ua) evs"
  have sent: "?P ?w"
    by (simp add: sent_world_def)
  have drew: "?P (drew_world ?w)"
    by (simp add: sent_world_def)
  have hsb: "?P (snd (handle_soft_block (softblock self) url ob ?w))" for ob
  proof -
    obtain evs where "trace (snd (handle_soft_block (softblock self) url ob ?w)) = trace ?w @ evs"
      "list_all recovery_event evs"
      using handle_soft_block_trace by blast
    then have "trace (snd (handle_soft_block (softblock self) url ob ?w)) =
        trace w @ (Get url ?hs (request_timeout self) # evs) \<and>
        list_all (same_ua_event ua) (Get url ?hs (request_timeout self) # evs)"
      by (simp add: sent_world_def same_ua_recovery)
    then show ?thesis by blast
  qed
  have again: "?P (snd (fetch_loop self url ?hs (attempt + 1) (retry_world self url ?hs attempt w)))"
    if "\<not> attempt + 1 \<ge> max_retries (softblock self)"
  proof -
    let ?w' = "retry_world self url ?hs attempt w"
    have "nat (max_retries (softblock self) - (attempt + 1)) < nat (max_retries (softblock self) - attempt)"
      using that by simp
    from less [OF this] obtain evs where
      "trace (snd (fetch_loop self url ?hs (attempt + 1) ?w')) = trace ?w' @ evs"
      "list_all (same_ua_event ua) evs"
      by blast
    then have "trace (snd (fetch_loop self url ?hs (attempt + 1) ?w')) =
        trace w @ ([Get url ?hs (request_timeout self), Uniform (jitter_of w),
          Sleep (delay_of (softblock self) (attempt + 1) w)] @ evs) \<and>
        list_all (same_ua_event ua) ([Get url ?hs (request_timeout self), Uniform (jitter_of w),
          Sleep (delay_of (softblock self) (attempt + 1) w)] @ evs)"
      by (simp add: retry_world_def)
    then show ?thesis by blast
  qed
  show ?case
    apply (subst fetch_loop_unfold)
    using sent drew hsb again
    apply (simp split: reply.splits option.splits)
    done
qed

lemma random_choice_pool:
  "random_choice DEFAULT_USER_AGENTS w =
     (DEFAULT_USER_AGENTS ! (rnd w (drawn w) mod 3),
      w\<lparr>drawn := drawn w + 1,
        trace := trace w @ [Choice (DEFAULT_USER_AGENTS ! (rnd w (drawn w) mod 3))]\<rparr>)"
  by (simp add: random_choice_def Let_def DEFAULT_USER_AGENTS_def)

lemma float_round_nine_eighths: "float_round (9 / 8) = 9 / 8"
  using float_round_exact [of 9 "- 3"] by (simp add: power_int_minus_divide)

lemma default_scraper_simps [simp]:
  "softblock default_scraper = default_handler"
  "request_timeout default_scraper = 10"
  "max_retries default_handler = 3"
  "backoff_factor default_handler = 3 / 2"
  by (simp_all add: default_scraper_def default_handler_def)

lemma default_scraper_fits:
  "0 \<le> backoff_factor (softblock default_scraper)"
  "backoff_factor (softblock default_scraper) ^ nat (max_retries (softblock default_scraper) - 1)
     \<le> 2 ^ 30"
  by (simp_all add: power2_eq_square)

text \<open>
  The first attempt times out and the second is answered: the fetch makes one draw from the
  pool and both requests carry the string drawn, so the second attempt has no fresh draw.
\<close>

theorem fetch_page_one_draw_counterexample:
  "trace (snd (fetch_page default_scraper ''u''
              (scripted [Raises Timeout, Response plain_page True]))) =
     [Choice (DEFAULT_USER_AGENTS ! 0),
      Get ''u'' [(''User-Agent'', DEFAULT_USER_AGENTS ! 0)] 10,
      Uniform (1 / 8), Sleep (9 / 8),
      Get ''u'' [(''User-Agent'', DEFAULT_USER_AGENTS ! 0)] 10] \<and>
   \<not> fresh_ua_per_attempt None
       (trace (snd (fetch_page default_scraper ''u''
                 (scripted [Raises Timeout, Response plain_page True]))))"
proof -
  let ?w = "scripted [Raises Timeout, Response plain_page True]"
  let ?hs = "[(''User-Agent'', DEFAULT_USER_AGENTS ! 0)]"
  let ?wa = "?w\<lparr>drawn := drawn ?w + 1, trace := trace ?w @ [Choice (DEFAULT_USER_AGENTS ! 0)]\<rparr>"
  let ?wb = "retry_world default_scraper ''u'' ?hs 0 ?wa"
  note step = fetch_loop_step [OF default_scraper_fits]
  have 1: "fetch_page default_scraper ''u'' ?w = fetch_loop default_scraper ''u'' ?hs 0 ?wa"
    by (simp add: fetch_page_def random_choice_pool)
  have 2: "fetch_loop default_scraper ''u'' ?hs 0 ?wa = fetch_loop default_scraper ''u'' ?hs 1 ?wb"
    by (subst step) simp
  have 3: "fetch_loop default_scraper ''u'' ?hs 1 ?wb =
      (Inr plain_page, sent_world default_scraper ''u'' ?hs ?wb)"
    by (subst step) (simp add: retry_world_def plain_page_not_blocked)
  have tr: "trace (snd (fetch_page default_scraper ''u'' ?w)) =
     [Choice (DEFAULT_USER_AGENTS ! 0),
      Get ''u'' [(''User-Agent'', DEFAULT_USER_AGENTS ! 0)] 10,
      Uniform (1 / 8), Sleep (9 / 8),
      Get ''u'' [(''User-Agent'', DEFAULT_USER_AGENTS ! 0)] 10]"
    unfolding 1 2 3
    by (simp add: sent_world_def retry_world_def jitter_of_def delay_of_def
        base_of_first float_round_nine_eighths [simplified])
  show ?thesis
    unfolding tr by (simp add: is_recovery_def)
qed

text \<open>
  Claim C4, as the code has it. A fetch draws its user agent from the pool once, before
  the first attempt; after that there is no further draw from the pool, and every
  request of the fetcher's own loop, retries included, carries that one string (the only
  other requests are those of the recovery procedure).
\<close>

theorem fetch_page_one_user_agent:
  "\<exists>ua evs. ua = DEFAULT_USER_AGENTS ! (rnd w (drawn w) mod 3) \<and>
     trace (snd (fetch_page self url w)) = trace w @ Choice ua # evs \<and>
     list_all (same_ua_event ua) evs"
proof -
  let ?ua = "DEFAULT_USER_AGENTS ! (rnd w (drawn w) mod 3)"
  let ?wa = "w\<lparr>drawn := drawn w + 1, trace := trace w @ [Choice ?ua]\<rparr>"
  obtain evs where "trace (snd (fetch_loop self url [(''User-Agent'', ?ua)] 0 ?wa)) = trace ?wa @ evs"
    "list_all (same_ua_event ?ua) evs"
    using fetch_loop_trace by blast
  then have "trace (snd (fetch_page self url w)) = trace w @ Choice ?ua # evs \<and>
     list_all (same_ua_event ?ua) evs"
    by (simp add: fetch_page_def random_choice_pool)
  then show ?thesis by blast
qed

section \<open>The query orchestrator\<close>

lemma search_loop_append:
  "search_loop L self term rp mkt lang (ps @ qs) results w =
     (case search_loop L self term rp mkt lang ps results w of
        (Inl e, w') \<Rightarrow> (Inl e, w')
      | (Inr results', w') \<Rightarrow> search_loop L self term rp mkt lang qs results' w')"
  by (induction ps arbitrary: results w)
     (auto simp: Let_def split: prod.splits sum.splits)

lemma search_loop_pages:
  "fst (search_loop L self term rp mkt lang ps results w) = Inr out \<Longrightarrow>
     map (sq_page \<circ> searchQuery) out = map (sq_page \<circ> searchQuery) results @ ps"
proof (induction ps arbitrary: results w)
  case Nil
  then show ?case by simp
next
  case (Cons p ps)
  from Cons.prems show ?case
    by (auto simp: Let_def parse_page_eq
        split: prod.splits sum.splits option.splits list.splits dest!: Cons.IH)
qed

text \<open>
  Claim C9. When a search returns, its records are those of the pages \<open>1, ..., pages\<close>
  in this order. When the first \<open>k - 1\<close> pages go through and the fetch of page \<open>k\<close> fails,
  the search as a whole is that failure and ends in the world the failed fetch left:
  no record is returned and nothing is done for the pages after \<open>k\<close>.
\<close>

theorem search_in_order_and_aborts:
  "(fst (search L self term pages rp' mkt' lang' w) = Inr out \<longrightarrow>
      map (sq_page \<circ> searchQuery) out = [1..pages]) \<and>
   (1 \<le> k \<and> k \<le> pages \<and>
    fst (search L self term (k - 1) rp' mkt' lang' w) = Inr before \<and>
    fst (fetch_page self (page_url self term k rp' mkt' lang')
           (snd (search L self term (k - 1) rp' mkt' lang' w))) = Inl e \<longrightarrow>
      search L self term pages rp' mkt' lang' w =
        (Inl e, snd (fetch_page self (page_url self term k rp' mkt' lang')
                       (snd (search L self term (k - 1) rp' mkt' lang' w)))))"
proof (intro conjI impI)
  assume "fst (search L self term pages rp' mkt' lang' w) = Inr out"
  then show "map (sq_page \<circ> searchQuery) out = [1..pages]"
    using search_loop_pages [where results = "[]" and out = out]
    by (simp add: search_def Let_def)
next
  assume a: "1 \<le> k \<and> k \<le> pages \<and>
    fst (search L self term (k - 1) rp' mkt' lang' w) = Inr before \<and>
    fst (fetch_page self (page_url self term k rp' mkt' lang')
           (snd (search L self term (k - 1) rp' mkt' lang' w))) = Inl e"
  then have split: "[1..pages] = [1..k - 1] @ k # [k + 1..pages]"
    by (intro upto_split3) simp_all
  show "search L self term pages rp' mkt' lang' w =
        (Inl e, snd (fetch_page self (page_url self term k rp' mkt' lang')
                       (snd (search L self term (k - 1) rp' mkt' lang' w))))"
    using a
    by (auto simp: search_def Let_def split search_loop_append page_url_def
        split: prod.splits sum.splits)
qed

lemma float_round_pause_low: "float_round (4 / 5) = 3602879701896397 / 2 ^ 52"
proof -
  have "float_round (4 / 5) =
      of_int (half_even ((4 / 5) / 2 powi (- 1 - 52))) * 2 powi (- 1 - 52)"
    by (intro float_round_binade) simp_all
  moreover have "half_even ((4 / 5) / 2 powi (- 1 - 52)) = 7205759403792794"
    by (simp add: half_even_def)
  ultimately show ?thesis by simp
qed

lemma float_round_pause_high: "float_round (8 / 5) = 3602879701896397 / 2 ^ 51"
proof -
  have "float_round (8 / 5) =
      of_int (half_even ((8 / 5) / 2 powi (0 - 52))) * 2 powi (0 - 52)"
    by (intro float_round_binade) simp_all
  moreover have "half_even ((8 / 5) / 2 powi (0 - 52)) = 7205759403792794"
    by (simp add: half_even_def)
  ultimately show ?thesis by simp
qed

lemma pause_eq:
  "random_uniform (float_round (4 / 5)) (float_round (8 / 5)) w =
     (pause_of w, w\<lparr>drawn := drawn w + 1, trace := trace w @ [Uniform (pause_of w)]\<rparr>)"
  by (simp add: random_uniform_def pause_of_def Let_def)

lemma pause_nonneg: "0 \<le> pause_of w"
proof -
  have "0 \<le> float_round (8 / 5) - float_round (4 / 5)"
    by (simp add: float_round_pause_low float_round_pause_high)
  then have "0 \<le> float_round (float_round (8 / 5) - float_round (4 / 5)) *
      unit_draw (rnd w (drawn w))"
    using unit_draw_bounds [of "rnd w (drawn w)"]
    by (intro mult_nonneg_nonneg float_round_nonneg) simp_all
  then have "0 \<le> float_round (4 / 5) + float_round
      (float_round (float_round (8 / 5) - float_round (4 / 5)) * unit_draw (rnd w (drawn w)))"
    by (intro add_nonneg_nonneg float_round_nonneg) simp_all
  then have "0 \<le> float_round (float_round (4 / 5) + float_round
      (float_round (float_round (8 / 5) - float_round (4 / 5)) * unit_draw (rnd w (drawn w))))"
    by (rule float_round_nonneg)
  then show ?thesis
    by (simp add: pause_of_def random_uniform_def Let_def)
qed

lemma pause_le: "pause_of w \<le> 2"
proof -
  define u where "u = unit_draw (rnd w (drawn w))"
  define c :: real where "c = 3602879701896397 / 2 ^ 52"
  have u: "0 \<le> u" "u < 1" using unit_draw_bounds [of "rnd w (drawn w)"] by (simp_all add: u_def)
  have lo: "float_round (4 / 5) = c" by (simp add: float_round_pause_low c_def)
  have hi: "float_round (8 / 5) = 2 * c" by (simp add: float_round_pause_high c_def)
  have c: "0 \<le> c" "c \<le> 1" by (simp_all add: c_def)
  have "float_round c \<le> 2 powi 0" using c by (intro float_round_le_pow2) simp_all
  then have w1: "float_round c \<le> 1" by simp
  have w0: "0 \<le> float_round c" using c(1) by (rule float_round_nonneg)
  have p0: "0 \<le> float_round c * u" using w0 u(1) by simp
  have "float_round c * u \<le> 1 * 1" using w0 w1 u by (intro mult_mono) simp_all
  then have "float_round (float_round c * u) \<le> 2 powi 0"
    using p0 by (intro float_round_le_pow2) simp_all
  then have q1: "float_round (float_round c * u) \<le> 1" by simp
  have q0: "0 \<le> float_round (float_round c * u)" using p0 by (rule float_round_nonneg)
  have "float_round (c + float_round (float_round c * u)) \<le> 2 powi 1"
    using c q0 q1 by (intro float_round_le_pow2) simp_all
  then have "float_round (c + float_round (float_round c * u)) \<le> 2" by simp
  moreover have "pause_of w = float_round (c + float_round (float_round c * u))"
    by (simp add: pause_of_def random_uniform_def Let_def lo hi u_def)
  ultimately show ?thesis by simp
qed

lemma pause_sleep:
  "time_sleep (pause_of w) w' = (Inr (), w'\<lparr>trace := trace w' @ [Sleep (pause_of w)]\<rparr>)"
proof -
  define t where "t = pause_of w * 10 ^ 9"
  have t0: "0 \<le> t" using pause_nonneg [of w] by (simp add: t_def)
  have "t \<le> 2 * 10 ^ 9" unfolding t_def using pause_le [of w] by (intro mult_right_mono) simp_all
  then have t1: "t \<le> 2 powi 31" by simp
  have n0: "0 \<le> float_round t" using t0 by (rule float_round_nonneg)
  have "float_round t \<le> 2 powi 31" using t0 t1 by (rule float_round_le_pow2) simp
  then have n1: "float_round t < 2 ^ 63" by simp
  have "sleep_error (pause_of w) = None"
    unfolding sleep_error_def t_def [symmetric] using n0 n1 pause_nonneg [of w] by simp
  then show ?thesis by (simp add: time_sleep_eq)
qed

lemma parse_page_empty_lib:
  "parse_page empty_lib self html meta =
     Inr \<lparr>searchQuery = meta, htmlText = (if include_html self then Some html else None),
          htmlSnapshotUrl = (), resultsTotal = None, organicResults = [], paidResults = [],
          peopleAlsoAsk = [], relatedQueries = []\<rparr>"
  by (simp add: parse_page_eq list_errors_def List.map_filter_simps empty_lib_def
      results_total_try_def
      bs_select_one_def first_of_def extract_organic_results_def extract_paid_results_def
      extract_people_also_ask_def extract_related_queries_def)

lemma search_one_page:
  "fst (search empty_lib default_scraper ''cats'' 1 None None None outage) =
     Inr [\<lparr>searchQuery = \<lparr>sq_term = ''cats'', sq_resultsPerPage = 10, sq_page = 1,
              sq_url = build_search_url ''cats'' 1 10 ''en-US'' ''en'',
              sq_marketCode = ''en-US'', sq_languageCode = ''en''\<rparr>,
           htmlText = None, htmlSnapshotUrl = (), resultsTotal = None, organicResults = [],
           paidResults = [], peopleAlsoAsk = [], relatedQueries = []\<rparr>]"
  by (simp add: search_def int_or_def str_or_def default_scraper_def outage_def Let_def
        fetch_page_def random_choice_pool fetch_loop_step [OF default_scraper_fits, unfolded default_scraper_def]
        plain_page_not_blocked parse_page_empty_lib sent_world_def
        pause_eq pause_sleep)

lemmas run_simps =
  search_def int_or_def str_or_def default_scraper_def outage_def Let_def
  fetch_page_def random_choice_pool fetch_loop_step [OF default_scraper_fits, unfolded default_scraper_def]
  plain_page_not_blocked parse_page_empty_lib sent_world_def retry_world_def
  pause_eq pause_sleep page_url_def

lemma second_page_fails:
  "fst (fetch_page default_scraper (page_url default_scraper ''cats'' 2 None None None)
         (snd (search empty_lib default_scraper ''cats'' 1 None None None outage))) = Inl Timeout"
  by (simp add: run_simps)

theorem search_in_order_and_aborts_witness:
  "map (sq_page \<circ> searchQuery)
     [\<lparr>searchQuery = \<lparr>sq_term = ''cats'', sq_resultsPerPage = 10, sq_page = 1,
              sq_url = build_search_url ''cats'' 1 10 ''en-US'' ''en'',
              sq_marketCode = ''en-US'', sq_languageCode = ''en''\<rparr>,
           htmlText = None, htmlSnapshotUrl = (), resultsTotal = None, organicResults = [],
           paidResults = [], peopleAlsoAsk = [], relatedQueries = []\<rparr>] = [1..1] \<and>
   fst (search empty_lib default_scraper ''cats'' 3 None None None outage) = Inl Timeout \<and>
   sent (snd (search empty_lib default_scraper ''cats'' 3 None None None outage)) = 4"
proof -
  note t = search_in_order_and_aborts [of empty_lib default_scraper "''cats''" _ None None None outage]
  have a: "map (sq_page \<circ> searchQuery)
     [\<lparr>searchQuery = \<lparr>sq_term = ''cats'', sq_resultsPerPage = 10, sq_page = 1,
              sq_url = build_search_url ''cats'' 1 10 ''en-US'' ''en'',
              sq_marketCode = ''en-US'', sq_languageCode = ''en''\<rparr>,
           htmlText = None, htmlSnapshotUrl = (), resultsTotal = None, organicResults = [],
           paidResults = [], peopleAlsoAsk = [], relatedQueries = []\<rparr>] = [1..1]"
    using t [of 1] search_one_page by blast
  have "(1::int) \<le> 2 \<and> (2::int) \<le> 3" by simp
  with t [of 3 _ 2 _ Timeout] search_one_page second_page_fails
  have b: "search empty_lib default_scraper ''cats'' 3 None None None outage =
      (Inl Timeout, snd (fetch_page default_scraper (page_url default_scraper ''cats'' 2 None None None)
         (snd (search empty_lib default_scraper ''cats'' (2 - 1) None None None outage))))"
    by simp
  have c: "sent (snd (fetch_page default_scraper (page_url default_scraper ''cats'' 2 None None None)
         (snd (search empty_lib default_scraper ''cats'' (2 - 1) None None None outage)))) = 4"
    by (simp add: run_simps)
  from a b c show ?thesis by simp
qed

end
